theory Spec2Isabelle
  imports Main "HOL-Library.Sublist"
begin

section \<open>The tick engine of \<open>src/lib/model.ts\<close>\<close>

text \<open>
  The engine is the class \<open>Model\<close> and the unexported functions \<open>reset\<close>,
  \<open>checkCanPlay\<close>, \<open>stopAndCancelTimer\<close>, \<open>complete\<close> and \<open>updateToTick\<close>.
  Conventions of the embedding:
  \<^item> a JavaScript \<open>number\<close> that counts ticks, sizes or milliseconds is an \<open>int\<close>
    (ticks are integers; \<open>maxTime: Infinity\<close> of the demo and fractional values are
    outside the embedding); a frame handle is a \<open>nat\<close> (the truthiness test
    \<open>if (state.timer)\<close> is \<open>h \<noteq> 0\<close>); \<open>null\<close> is \<open>None\<close>;
  \<^item> \<open>props\<close> has the type \<open>ModelProps\<close>, where every field of \<open>DefaultProps\<close> is
    present: in \<open>reset\<close>, \<open>props.initialTick ?? props.minTime ?? 0\<close> is \<open>props.initialTick\<close>;
  \<^item> an object that the code mutates in place is a record passed in and returned;
  \<^item> the host (\<open>window.requestAnimationFrame\<close>, \<open>window.cancelAnimationFrame\<close>) is the
    list of outstanding handles and a counter of fresh handles;
  \<^item> every call of the transition function, of the render hook and of the host is
    appended to a log, so that "was not invoked" is a statement about the log;
  \<^item> the transition function is a pure function of the arguments it receives; the calls
    it makes on the capabilities \<open>complete\<close>, \<open>stop\<close> and \<open>pause\<close> are returned, in order,
    beside its result.
\<close>

subsection \<open>Data\<close>

datatype Param = PBool bool | PNum int | PStr string | PNull

type_synonym Params = "string \<rightharpoonup> Param"

record ('d, 'u) ModelState =
  cachedData :: "int \<rightharpoonup> 'd"
  cachedDataKeys :: "int set"
  cachedDataKeysQueue :: "int list"
  canPlay :: bool
  data :: 'd
  isPlaying :: "bool option"
  maxTick :: int
  params :: Params
  results :: "'u list"
  tick :: int
  time :: "int option"
  timer :: "nat option"

text \<open>\<open>RenderDataArgs\<close>: what the transition function and the render hook are given.\<close>

record 'd RenderDataArgs =
  argCachedData :: "int \<rightharpoonup> 'd"
  argData :: 'd
  argTick :: int
  argParams :: Params

text \<open>The capabilities of \<open>UpdateData\<close>, as the calls a transition function makes.\<close>

datatype 'u Capability = Complete 'u | Stop | Pause

record ('d, 'u) ModelProps =
  initData :: "Params \<Rightarrow> 'd"
  updateData :: "'d RenderDataArgs \<Rightarrow> 'u Capability list \<times> 'd"
  initialParams :: "Params option"
  clearsDataCacheOnReset :: bool
  clearsResultsCacheOnReset :: bool
  dataCacheSize :: int
  delay :: int
  initialTick :: int
  maxTime :: int
  minTime :: int
  resetsOnChange :: bool
  resultsCacheSize :: int
  ticksPerAnimation :: int

text \<open>
  \<open>defaultProps\<close>, with the constructor's defaults for the callbacks left to the caller
  (the constructor builds \<open>{...defaultProps, initData, render, updateData, ...props}\<close>).
\<close>

definition defaultProps ::
  "(Params \<Rightarrow> 'd) \<Rightarrow> ('d RenderDataArgs \<Rightarrow> 'u Capability list \<times> 'd) \<Rightarrow> ('d, 'u) ModelProps" where
  "defaultProps ini upd =
     \<lparr>initData = ini, updateData = upd, initialParams = None,
      clearsDataCacheOnReset = True, clearsResultsCacheOnReset = True,
      dataCacheSize = 0, delay = 0, initialTick = 0, maxTime = 100, minTime = 0,
      resetsOnChange = True, resultsCacheSize = 0, ticksPerAnimation = 1\<rparr>"

datatype 'd Call =
    UpdateDataCall "'d RenderDataArgs"
  | RenderCall "'d RenderDataArgs"
  | RequestFrame nat
  | CancelFrame nat

text \<open>
  An instance: \<open>this.state\<close>, and the part of the world it acts on. \<open>this.props\<close> never
  changes after construction and is passed to every operation.
\<close>

record ('d, 'u) Model =
  state :: "('d, 'u) ModelState"
  pending :: "nat list"
  nextHandle :: nat
  calls :: "'d Call list"

subsection \<open>The host's frame clock\<close>

definition requestAnimationFrame :: "('d, 'u) Model \<Rightarrow> nat \<times> ('d, 'u) Model" where
  "requestAnimationFrame m =
     (nextHandle m,
      m\<lparr>pending := pending m @ [nextHandle m],
        nextHandle := Suc (nextHandle m),
        calls := calls m @ [RequestFrame (nextHandle m)]\<rparr>)"

definition cancelAnimationFrame :: "nat \<Rightarrow> ('d, 'u) Model \<Rightarrow> ('d, 'u) Model" where
  "cancelAnimationFrame h m =
     m\<lparr>pending := removeAll h (pending m), calls := calls m @ [CancelFrame h]\<rparr>"

subsection \<open>\<open>reset\<close>, \<open>checkCanPlay\<close>, \<open>stopAndCancelTimer\<close>\<close>

text \<open>
  \<open>reset(props, state?)\<close> builds a new record and does not touch \<open>state\<close>. Where the data
  cache is kept, the new record's \<open>cachedData\<close> is the same object as the old one's, and
  the key set and the queue are copies.
\<close>

definition reset :: "('d, 'u) ModelProps \<Rightarrow> ('d, 'u) ModelState option \<Rightarrow> ('d, 'u) ModelState" where
  "reset props st =
     (let prm = (case st of
                   Some s \<Rightarrow> params s
                 | None \<Rightarrow> (case initialParams props of Some p \<Rightarrow> p | None \<Rightarrow> Map.empty));
          dat = initData props prm;
          tck = initialTick props
      in \<lparr>cachedData =
             (case st of None \<Rightarrow> Map.empty
              | Some s \<Rightarrow> if clearsDataCacheOnReset props then Map.empty else cachedData s),
          cachedDataKeys =
             (case st of None \<Rightarrow> {}
              | Some s \<Rightarrow> if clearsDataCacheOnReset props then {} else cachedDataKeys s),
          cachedDataKeysQueue =
             (case st of None \<Rightarrow> []
              | Some s \<Rightarrow> if clearsDataCacheOnReset props then [] else cachedDataKeysQueue s),
          canPlay = True,
          data = dat,
          isPlaying = (case st of None \<Rightarrow> None | Some s \<Rightarrow> isPlaying s),
          maxTick = tck,
          params = prm,
          results =
             (case st of None \<Rightarrow> []
              | Some s \<Rightarrow> if clearsResultsCacheOnReset props then [] else results s),
          tick = tck,
          time = None,
          timer = None\<rparr>)"

definition checkCanPlay ::
  "int \<Rightarrow> int \<Rightarrow> ('d, 'u) ModelState \<Rightarrow> bool \<times> ('d, 'u) ModelState" where
  "checkCanPlay tck maxT st =
     (if canPlay st = False \<or> tck > maxT
      then (False, st\<lparr>canPlay := False, isPlaying := Some False\<rparr>)
      else (True, st))"

definition stopAndCancelTimer :: "('d, 'u) Model \<Rightarrow> ('d, 'u) Model" where
  "stopAndCancelTimer m =
     (case timer (state m) of
        None \<Rightarrow> m
      | Some h \<Rightarrow>
          if h \<noteq> 0
          then (let m1 = cancelAnimationFrame h m in m1\<lparr>state := (state m1)\<lparr>timer := None\<rparr>\<rparr>)
          else m)"

definition newModel :: "('d, 'u) ModelProps \<Rightarrow> ('d, 'u) Model" where
  "newModel props = \<lparr>state = reset props None, pending = [], nextHandle = 1, calls = []\<rparr>"

subsection \<open>Operations that do not step\<close>

definition render :: "('d, 'u) Model \<Rightarrow> ('d, 'u) Model" where
  "render m =
     m\<lparr>calls := calls m @
        [RenderCall \<lparr>argCachedData = cachedData (state m), argData = data (state m),
                     argTick = tick (state m), argParams = params (state m)\<rparr>]\<rparr>"

definition setData :: "('d, 'u) ModelProps \<Rightarrow> 'd \<Rightarrow> ('d, 'u) Model \<Rightarrow> ('d, 'u) Model" where
  "setData props d m =
     (let m1 = m\<lparr>state := (state m)\<lparr>data := d\<rparr>\<rparr>;
          m2 = stopAndCancelTimer m1;
          m3 = m2\<lparr>state := (state m2)\<lparr>isPlaying := Some False\<rparr>\<rparr>
      in m3\<lparr>state := (state m3)\<lparr>tick := initialTick props\<rparr>\<rparr>)"

text \<open>
  \<open>setParams\<close> calls \<open>reset(this.props, this.state)\<close> as a statement: the record that
  \<open>reset\<close> returns is dropped, and \<open>reset\<close> changes nothing in place.
\<close>

definition setParams ::
  "('d, 'u) ModelProps \<Rightarrow> Params \<Rightarrow> ('d, 'u) Model \<Rightarrow> ('d, 'u) Model" where
  "setParams props updatedParams m =
     (let m1 = m\<lparr>state := (state m)\<lparr>params := params (state m) ++ updatedParams\<rparr>\<rparr>
      in if resetsOnChange props
         then (let dropped = reset props (Some (state m1)) in m1)
         else m1)"

definition stop :: "('d, 'u) ModelProps \<Rightarrow> ('d, 'u) Model \<Rightarrow> ('d, 'u) Model" where
  "stop props m =
     (let m1 = stopAndCancelTimer m;
          m2 = m1\<lparr>state := (state m1)\<lparr>isPlaying := Some False\<rparr>\<rparr>
      in m2\<lparr>state := reset props (Some (state m2))\<rparr>)"

definition play :: "('d, 'u) Model \<Rightarrow> ('d, 'u) Model" where
  "play m =
     (let m1 = m\<lparr>state := (state m)\<lparr>isPlaying := Some True\<rparr>\<rparr>;
          hm = requestAnimationFrame m1
      in (snd hm)\<lparr>state := (state (snd hm))\<lparr>timer := Some (fst hm)\<rparr>\<rparr>)"

definition pause :: "('d, 'u) Model \<Rightarrow> ('d, 'u) Model" where
  "pause m =
     (let m1 = stopAndCancelTimer m
      in m1\<lparr>state := (state m1)\<lparr>isPlaying := Some False\<rparr>\<rparr>)"

subsection \<open>\<open>updateToTick\<close>\<close>

text \<open>
  One activation of \<open>updateToTick\<close> holds the parameter \<open>state\<close>, bound to the object
  that was \<open>this.state\<close> when the call started. The capability \<open>stop\<close> assigns a new
  record to \<open>this.state\<close>; from then on the parameter and \<open>this.state\<close> are two objects.
  \<open>detached = None\<close>: the parameter is \<open>this.state\<close>, the record \<open>state (self k)\<close>.
  \<open>detached = Some old\<close>: the parameter is the object \<open>old\<close>, no longer the instance's.
\<close>

record ('d, 'u) Activation =
  self :: "('d, 'u) Model"
  detached :: "('d, 'u) ModelState option"

definition stateArg :: "('d, 'u) Activation \<Rightarrow> ('d, 'u) ModelState" where
  "stateArg k = (case detached k of None \<Rightarrow> state (self k) | Some old \<Rightarrow> old)"

definition setStateArg :: "('d, 'u) ModelState \<Rightarrow> ('d, 'u) Activation \<Rightarrow> ('d, 'u) Activation" where
  "setStateArg st k =
     (case detached k of
        None \<Rightarrow> k\<lparr>self := (self k)\<lparr>state := st\<rparr>\<rparr>
      | Some old \<Rightarrow> k\<lparr>detached := Some st\<rparr>)"

text \<open>
  A write to \<open>state.cachedData\<close>. After a \<open>stop\<close> that keeps the data cache, the
  instance's new record shares the object \<open>cachedData\<close> with the parameter, so the write
  shows in both; after a \<open>stop\<close> that clears it, the new record has an object of its own.
\<close>

definition writeCachedData ::
  "('d, 'u) ModelProps \<Rightarrow> ((int \<rightharpoonup> 'd) \<Rightarrow> (int \<rightharpoonup> 'd)) \<Rightarrow> ('d, 'u) Activation \<Rightarrow> ('d, 'u) Activation" where
  "writeCachedData props f k =
     (case detached k of
        None \<Rightarrow> k\<lparr>self := (self k)\<lparr>state := (state (self k))\<lparr>cachedData := f (cachedData (state (self k)))\<rparr>\<rparr>\<rparr>
      | Some old \<Rightarrow>
          k\<lparr>detached := Some (old\<lparr>cachedData := f (cachedData old)\<rparr>),
            self := (if clearsDataCacheOnReset props then self k
                     else (self k)\<lparr>state := (state (self k))\<lparr>cachedData := f (cachedData (state (self k)))\<rparr>\<rparr>)\<rparr>)"

text \<open>The capabilities handed to the transition function: \<open>this.pause\<close>, \<open>this.stop\<close>.\<close>

definition pauseCap :: "('d, 'u) Activation \<Rightarrow> ('d, 'u) Activation" where
  "pauseCap k = k\<lparr>self := pause (self k)\<rparr>"

definition stopCap :: "('d, 'u) ModelProps \<Rightarrow> ('d, 'u) Activation \<Rightarrow> ('d, 'u) Activation" where
  "stopCap props k =
     (let m1 = stopAndCancelTimer (self k);
          m2 = m1\<lparr>state := (state m1)\<lparr>isPlaying := Some False\<rparr>\<rparr>
      in \<lparr>self = m2\<lparr>state := reset props (Some (state m2))\<rparr>,
          detached = Some (case detached k of None \<Rightarrow> state m2 | Some old \<Rightarrow> old)\<rparr>)"

text \<open>\<open>complete(result, state, props, stop)\<close>, with \<open>state\<close> the activation's parameter.\<close>

definition pushResult :: "int \<Rightarrow> 'u \<Rightarrow> 'u list \<Rightarrow> 'u list" where
  "pushResult bound r rs =
     (if bound > 0
      then (let rs1 = rs @ [r] in if int (length rs1) > bound then tl rs1 else rs1)
      else rs)"

definition complete :: "('d, 'u) ModelProps \<Rightarrow> 'u \<Rightarrow> ('d, 'u) Activation \<Rightarrow> ('d, 'u) Activation" where
  "complete props r k =
     (let st = stateArg k;
          st1 = st\<lparr>results := pushResult (resultsCacheSize props) r (results st)\<rparr>;
          k1 = setStateArg (st1\<lparr>canPlay := False\<rparr>) k
      in stopCap props k1)"

fun runCapability ::
  "('d, 'u) ModelProps \<Rightarrow> ('d, 'u) Activation \<Rightarrow> 'u Capability \<Rightarrow> ('d, 'u) Activation" where
  "runCapability props k (Complete r) = complete props r k"
| "runCapability props k Stop = stopCap props k"
| "runCapability props k Pause = pauseCap k"

text \<open>The block guarded by \<open>props.dataCacheSize > 0\<close> in the loop of \<open>updateToTick\<close>.\<close>

definition cacheTick ::
  "('d, 'u) ModelProps \<Rightarrow> int \<Rightarrow> 'd \<Rightarrow> ('d, 'u) Activation \<Rightarrow> ('d, 'u) Activation" where
  "cacheTick props tck dat k =
     (if dataCacheSize props > 0
      then
        (let k1 = setStateArg ((stateArg k)\<lparr>maxTick := tck\<rparr>) k;
             k2 = setStateArg ((stateArg k1)\<lparr>cachedDataKeysQueue := cachedDataKeysQueue (stateArg k1) @ [tck]\<rparr>) k1;
             k3 =
               (if int (length (cachedDataKeysQueue (stateArg k2))) \<le> dataCacheSize props
                then setStateArg ((stateArg k2)\<lparr>cachedDataKeys := insert tck (cachedDataKeys (stateArg k2))\<rparr>) k2
                else
                  (let toRemove = hd (cachedDataKeysQueue (stateArg k2));
                       k4 = setStateArg ((stateArg k2)\<lparr>cachedDataKeysQueue := tl (cachedDataKeysQueue (stateArg k2))\<rparr>) k2
                   in if toRemove \<noteq> 0
                      then (let k5 = writeCachedData props (\<lambda>c. c(toRemove := None)) k4
                            in setStateArg ((stateArg k5)\<lparr>cachedDataKeys := cachedDataKeys (stateArg k5) - {toRemove}\<rparr>) k5)
                      else k4))
         in writeCachedData props (\<lambda>c. c(tck \<mapsto> dat)) k3)
      else k)"

text \<open>
  One pass of the loop body, after the guard: \<open>tck\<close> is the tick already incremented,
  \<open>dat\<close> the local \<open>data\<close> before the call. Returns the new local \<open>data\<close>.
\<close>

definition loopBody ::
  "('d, 'u) ModelProps \<Rightarrow> bool \<Rightarrow> int \<Rightarrow> 'd \<Rightarrow> ('d, 'u) Activation \<Rightarrow> 'd \<times> ('d, 'u) Activation" where
  "loopBody props shouldStop tck dat k =
     (let args = \<lparr>argCachedData = cachedData (stateArg k), argData = dat,
                  argTick = tck, argParams = params (stateArg k)\<rparr>;
          k0 = k\<lparr>self := (self k)\<lparr>calls := calls (self k) @ [UpdateDataCall args]\<rparr>\<rparr>;
          out = updateData props args;
          k1 = foldl (runCapability props) k0 (fst out);
          dat1 = snd out;
          k2 = cacheTick props tck dat1 k1;
          k3 = setStateArg ((stateArg k2)\<lparr>data := dat1\<rparr>) k2;
          k4 = setStateArg ((stateArg k3)\<lparr>tick := tck\<rparr>) k3;
          k5 = (if shouldStop then setStateArg ((stateArg k4)\<lparr>isPlaying := Some False\<rparr>) k4 else k4)
      in (dat1, k5\<lparr>self := render (self k5)\<rparr>))"

function updateLoop ::
  "('d, 'u) ModelProps \<Rightarrow> int \<Rightarrow> bool \<Rightarrow> int \<Rightarrow> 'd \<Rightarrow> ('d, 'u) Activation \<Rightarrow> ('d, 'u) Activation" where
  "updateLoop props target shouldStop tck dat k =
     (if tck < target
      then (if fst (checkCanPlay tck (maxTime props) (stateArg k))
            then updateLoop props target shouldStop (tck + 1)
                   (fst (loopBody props shouldStop (tck + 1) dat k))
                   (snd (loopBody props shouldStop (tck + 1) dat k))
            else setStateArg (snd (checkCanPlay tck (maxTime props) (stateArg k))) k)
      else k)"
  by pat_completeness auto
termination
  by (relation "measure (\<lambda>(props, target, shouldStop, tck, dat, k). nat (target - tck))") auto

declare updateLoop.simps [simp del]

definition updateToTick ::
  "('d, 'u) ModelProps \<Rightarrow> int \<Rightarrow> bool \<Rightarrow> ('d, 'u) Model \<Rightarrow> ('d, 'u) Model" where
  "updateToTick props target shouldStop m =
     (let dat = data (state m)
      in if target \<in> cachedDataKeys (state m)
         then (let localData = cachedData (state m) target; localTick = target in m)
         else
           (let tck = (if maxTick (state m) \<in> cachedDataKeys (state m)
                       then maxTick (state m) else tick (state m))
            in self (updateLoop props target shouldStop tck dat \<lparr>self = m, detached = None\<rparr>)))"

subsection \<open>The operations that step\<close>

definition setTick :: "('d, 'u) ModelProps \<Rightarrow> int \<Rightarrow> ('d, 'u) Model \<Rightarrow> ('d, 'u) Model" where
  "setTick props target m = updateToTick props target True (stopAndCancelTimer m)"

text \<open>
  The last block of \<open>advance\<close>: \<open>if (this.state.isPlaying) { if (this.state.timer)
  cancelAnimationFrame(this.state.timer); this.state.timer = requestAnimationFrame(...) }\<close>.
\<close>

definition reschedule :: "('d, 'u) Model \<Rightarrow> ('d, 'u) Model" where
  "reschedule m =
     (if isPlaying (state m) = Some True
      then
        (let m1 = (case timer (state m) of
                     None \<Rightarrow> m
                   | Some h \<Rightarrow> if h \<noteq> 0 then cancelAnimationFrame h m else m);
             hm = requestAnimationFrame m1
         in (snd hm)\<lparr>state := (state (snd hm))\<lparr>timer := Some (fst hm)\<rparr>\<rparr>)
      else m)"

definition advance :: "('d, 'u) ModelProps \<Rightarrow> int \<Rightarrow> ('d, 'u) Model \<Rightarrow> ('d, 'u) Model" where
  "advance props timestamp m =
     (if fst (checkCanPlay (tick (state m)) (maxTime props) (state m))
      then
        (let m1 = (if time (state m) = None
                   then m\<lparr>state := (state m)\<lparr>time := Some timestamp\<rparr>\<rparr> else m);
             anchor = (case time (state m1) of Some t \<Rightarrow> t | None \<Rightarrow> timestamp);
             m2 = (if timestamp - anchor \<ge> delay props
                   then (let m1a = m1\<lparr>state := (state m1)\<lparr>time := Some timestamp\<rparr>\<rparr>
                         in updateToTick props (tick (state m1a) + ticksPerAnimation props) False m1a)
                   else m1)
         in reschedule m2)
      else m\<lparr>state := snd (checkCanPlay (tick (state m)) (maxTime props) (state m))\<rparr>)"

text \<open>
  The host runs the oldest outstanding callback, if there is one, with a timestamp.
\<close>

definition frame :: "('d, 'u) ModelProps \<Rightarrow> int \<Rightarrow> ('d, 'u) Model \<Rightarrow> ('d, 'u) Model" where
  "frame props timestamp m =
     (case pending m of
        [] \<Rightarrow> m
      | h # hs \<Rightarrow> advance props timestamp (m\<lparr>pending := hs\<rparr>))"

datatype 'd Op =
    Play | PauseOp | StopOp | SetTick int | SetParams Params | SetData 'd | Frame int

fun apply_op :: "('d, 'u) ModelProps \<Rightarrow> ('d, 'u) Model \<Rightarrow> 'd Op \<Rightarrow> ('d, 'u) Model" where
  "apply_op props m Play = play m"
| "apply_op props m PauseOp = pause m"
| "apply_op props m StopOp = stop props m"
| "apply_op props m (SetTick target) = setTick props target m"
| "apply_op props m (SetParams p) = setParams props p m"
| "apply_op props m (SetData d) = setData props d m"
| "apply_op props m (Frame timestamp) = frame props timestamp m"

definition run :: "('d, 'u) ModelProps \<Rightarrow> 'd Op list \<Rightarrow> ('d, 'u) Model \<Rightarrow> ('d, 'u) Model" where
  "run props ops m = foldl (apply_op props) m ops"

subsection \<open>The incrementer of \<open>test/model.test.ts\<close>\<close>

definition incrementerInitData :: "Params \<Rightarrow> int" where
  "incrementerInitData p = 0"

definition incrementerUpdateData :: "int RenderDataArgs \<Rightarrow> unit Capability list \<times> int" where
  "incrementerUpdateData a = ([], argData a + 1)"

definition incrementer :: "(int, unit) ModelProps" where
  "incrementer = (defaultProps incrementerInitData incrementerUpdateData)\<lparr>maxTime := 10\<rparr>"

definition cachingIncrementer :: "int \<Rightarrow> (int, unit) ModelProps" where
  "cachingIncrementer n = incrementer\<lparr>dataCacheSize := n\<rparr>"

subsection \<open>Notions used in the statements\<close>

text \<open>
  The cache block of the loop as one update of the record it works on (equal to what
  \<open>cacheTick\<close> does to the parameter \<open>state\<close>, see \<open>stateArg_cacheTick\<close>).
\<close>

definition cacheStep :: "int \<Rightarrow> int \<Rightarrow> 'd \<Rightarrow> ('d, 'u) ModelState \<Rightarrow> ('d, 'u) ModelState" where
  "cacheStep bound tck dat st =
     (if bound > 0 then
        (if int (length (cachedDataKeysQueue st)) + 1 \<le> bound
         then st\<lparr>maxTick := tck, cachedDataKeysQueue := cachedDataKeysQueue st @ [tck],
                 cachedDataKeys := insert tck (cachedDataKeys st),
                 cachedData := (cachedData st)(tck \<mapsto> dat)\<rparr>
         else (if hd (cachedDataKeysQueue st @ [tck]) \<noteq> 0
               then st\<lparr>maxTick := tck, cachedDataKeysQueue := tl (cachedDataKeysQueue st @ [tck]),
                       cachedDataKeys := cachedDataKeys st - {hd (cachedDataKeysQueue st @ [tck])},
                       cachedData := ((cachedData st)(hd (cachedDataKeysQueue st @ [tck]) := None))(tck \<mapsto> dat)\<rparr>
               else st\<lparr>maxTick := tck, cachedDataKeysQueue := tl (cachedDataKeysQueue st @ [tck]),
                       cachedData := (cachedData st)(tck \<mapsto> dat)\<rparr>))
      else st)"

text \<open>Invariant (c) of the specification: \<open>canPlay = false\<close> implies \<open>isPlaying = false\<close>.\<close>

definition flagsInvariant :: "('d, 'u) Model \<Rightarrow> bool" where
  "flagsInvariant m = (canPlay (state m) = False \<longrightarrow> isPlaying (state m) = Some False)"

text \<open>
  The callback \<open>h\<close> has been cancelled, first of all: the timer handle is null, the
  callbacks outstanding at the host are those of \<open>ps\<close> other than \<open>h\<close>, and the first call
  made after the log \<open>cs\<close> is \<open>cancelAnimationFrame(h)\<close>.
\<close>

definition cancelled :: "nat \<Rightarrow> 'd Call list \<Rightarrow> nat list \<Rightarrow> ('d, 'u) Model \<Rightarrow> bool" where
  "cancelled h cs ps m =
     (timer (state m) = None \<and> pending m = removeAll h ps
      \<and> prefix (cs @ [CancelFrame h]) (calls m))"

text \<open>
  At most one callback is outstanding, and \<open>state.timer\<close> holds its handle (invariant
  (d) of the specification, with the handle).
\<close>

definition soleSchedule :: "('d, 'u) Model \<Rightarrow> bool" where
  "soleSchedule m =
     (0 < nextHandle m \<and>
      (case pending m of
         [] \<Rightarrow> True
       | h # hs \<Rightarrow> hs = [] \<and> h \<noteq> 0 \<and> timer (state m) = Some h))"

text \<open>
  A sequence of operations in which \<open>play()\<close> is called only while no callback is
  outstanding.
\<close>

fun calm :: "('d, 'u) ModelProps \<Rightarrow> ('d, 'u) Model \<Rightarrow> 'd Op list \<Rightarrow> bool" where
  "calm props m [] = True"
| "calm props m (op # ops) =
     ((op = Play \<longrightarrow> pending m = []) \<and> calm props (apply_op props m op) ops)"

text \<open>Nothing is outstanding, and the next fresh handle is \<open>n\<close>.\<close>

definition quiet :: "nat \<Rightarrow> ('d, 'u) Model \<Rightarrow> bool" where
  "quiet n m = (pending m = [] \<and> nextHandle m = n)"

text \<open>
  A run of completions, each made on the instance's current state record: every result
  is passed to \<open>complete\<close> by a call of \<open>updateToTick\<close> whose parameter \<open>state\<close> is still
  \<open>this.state\<close> (no \<open>stop\<close> or \<open>complete\<close> came before it in that call).
\<close>

definition completions :: "('d, 'u) ModelProps \<Rightarrow> 'u list \<Rightarrow> ('d, 'u) Model \<Rightarrow> ('d, 'u) Model" where
  "completions props rs m = foldl (\<lambda>m r. self (complete props r \<lparr>self = m, detached = None\<rparr>)) m rs"

text \<open>
  The parameter \<open>state\<close> of the activation is no longer the instance's, its \<open>canPlay\<close> is
  false, and the instance holds the results \<open>rs\<close>: what a call of \<open>updateToTick\<close> is left
  with once its transition function has completed.
\<close>

definition lostTo :: "'u list \<Rightarrow> ('d, 'u) Activation \<Rightarrow> bool" where
  "lostTo rs k = (detached k \<noteq> None \<and> results (state (self k)) = rs \<and> canPlay (stateArg k) = False)"

text \<open>A transition function that completes at every tick, with the tick as result.\<close>

definition completer :: "(int, int) ModelProps" where
  "completer = (defaultProps (\<lambda>p. 0) (\<lambda>a. ([Complete (argTick a)], argData a + 1)))\<lparr>resultsCacheSize := 2\<rparr>"

text \<open>
  A transition function that completes at every tick with the number in the param
  \<open>result\<close>, in a configuration that keeps two results across resets.
\<close>

definition reporter :: "(int, int) ModelProps" where
  "reporter =
     (defaultProps (\<lambda>p. 0)
        (\<lambda>a. ([Complete (case argParams a ''result'' of Some (PNum v) \<Rightarrow> v | _ \<Rightarrow> 0)], argData a + 1)))
     \<lparr>resultsCacheSize := 2, clearsResultsCacheOnReset := False\<rparr>"

text \<open>
  A transition function that calls \<open>stop()\<close> at tick 1 and \<open>complete(tick)\<close> at every other
  tick, in a configuration that keeps one result across resets.
\<close>

definition stopThenComplete :: "(int, int) ModelProps" where
  "stopThenComplete =
     (defaultProps (\<lambda>p. 0)
        (\<lambda>a. (if argTick a = 1 then [Stop] else [Complete (argTick a)], argData a + 1)))
     \<lparr>resultsCacheSize := 1, clearsResultsCacheOnReset := False\<rparr>"

text \<open>Tick 0 is cached: it is in the key set and has an entry in \<open>cachedData\<close>.\<close>

definition zeroCached :: "('d, 'u) ModelState \<Rightarrow> bool" where
  "zeroCached st = (0 \<in> cachedDataKeys st \<and> cachedData st 0 \<noteq> None)"

text \<open>The same, of the parameter \<open>state\<close> of an activation and of \<open>this.state\<close>.\<close>

definition zeroKept :: "('d, 'u) Activation \<Rightarrow> bool" where
  "zeroKept k = (zeroCached (state (self k)) \<and> zeroCached (stateArg k))"

text \<open>The incrementer started at tick \<open>-1\<close>, with a data cache of one entry.\<close>

definition fromMinusOne :: "(int, unit) ModelProps" where
  "fromMinusOne = incrementer\<lparr>initialTick := - 1, dataCacheSize := 1\<rparr>"

definition keepingFromMinusOne :: "(int, unit) ModelProps" where
  "keepingFromMinusOne = fromMinusOne\<lparr>clearsDataCacheOnReset := False\<rparr>"

text \<open>
  What holds of the incrementer (\<open>maxTime = 10\<close>, no data cache) while it is only played
  and stepped by the clock: the data is the tick, and the stop condition has tripped
  only at tick 11.
\<close>

definition incrementerRun :: "(int, unit) Model \<Rightarrow> bool" where
  "incrementerRun m =
     (cachedDataKeys (state m) = {} \<and> data (state m) = tick (state m) \<and> tick (state m) \<le> 11
      \<and> (canPlay (state m) = False \<longrightarrow> tick (state m) = 11))"

text \<open>
  The queue of a record is within \<open>dataCacheSize\<close>; the same of both records of an
  activation.
\<close>

definition queueBounded :: "('d, 'u) ModelProps \<Rightarrow> ('d, 'u) ModelState \<Rightarrow> bool" where
  "queueBounded props st = (int (length (cachedDataKeysQueue st)) \<le> dataCacheSize props)"

definition queuesBounded :: "('d, 'u) ModelProps \<Rightarrow> ('d, 'u) Activation \<Rightarrow> bool" where
  "queuesBounded props k = (queueBounded props (state (self k)) \<and> queueBounded props (stateArg k))"

section \<open>Properties\<close>

subsection \<open>Facts about single operations\<close>

lemma canPlay_stopAndCancelTimer [simp]:
  "canPlay (state (stopAndCancelTimer m)) = canPlay (state m)"
  by (simp add: stopAndCancelTimer_def cancelAnimationFrame_def Let_def split: option.splits)

lemma tick_stopAndCancelTimer [simp]:
  "tick (state (stopAndCancelTimer m)) = tick (state m)"
  by (simp add: stopAndCancelTimer_def cancelAnimationFrame_def Let_def split: option.splits)

lemma updateLoop_cannot_play:
  "canPlay (stateArg k) = False \<Longrightarrow>
   updateLoop props target shouldStop tck dat k =
     (if tck < target
      then setStateArg ((stateArg k)\<lparr>canPlay := False, isPlaying := Some False\<rparr>) k
      else k)"
  by (subst updateLoop.simps) (simp add: checkCanPlay_def)

lemma updateToTick_cannot_play:
  assumes "canPlay (state m) = False"
  shows "canPlay (state (updateToTick props target shouldStop m)) = False
       \<and> tick (state (updateToTick props target shouldStop m)) = tick (state m)"
  using assms
  by (simp add: updateToTick_def Let_def updateLoop_cannot_play stateArg_def setStateArg_def)

lemma updateToTick_cached:
  assumes "target \<in> cachedDataKeys (state m)"
  shows "updateToTick props target shouldStop m = m"
  using assms by (simp add: updateToTick_def Let_def)

lemma advance_cannot_play:
  "canPlay (state m) = False \<Longrightarrow>
   advance props ts m = m\<lparr>state := (state m)\<lparr>canPlay := False, isPlaying := Some False\<rparr>\<rparr>"
  by (simp add: advance_def checkCanPlay_def)

lemma op_keeps_cannot_play:
  assumes "canPlay (state m) = False" and "op \<noteq> StopOp"
  shows "canPlay (state (apply_op props m op)) = False"
  using assms
  by (cases op)
     (simp_all add: play_def requestAnimationFrame_def pause_def setTick_def setParams_def
        setData_def frame_def advance_cannot_play updateToTick_cannot_play Let_def
        split: list.splits)

lemma op_keeps_tick:
  assumes "canPlay (state m) = False" and "op = Play \<or> (\<exists>ts. op = Frame ts)"
  shows "tick (state (apply_op props m op)) = tick (state m)"
  using assms
  by (auto simp: play_def requestAnimationFrame_def frame_def advance_cannot_play Let_def
        split: list.splits)

lemma run_Cons: "run props (op # ops) m = run props ops (apply_op props m op)"
  by (simp add: run_def)

lemma run_Nil: "run props [] m = m"
  by (simp add: run_def)

subsection \<open>The activation and the loop\<close>

lemma stateArg_setStateArg [simp]: "stateArg (setStateArg st k) = st"
  by (simp add: stateArg_def setStateArg_def split: option.splits)

lemma detached_setStateArg [simp]:
  "detached (setStateArg st k) = (case detached k of None \<Rightarrow> None | Some old \<Rightarrow> Some st)"
  by (simp add: setStateArg_def split: option.splits)

lemma self_setStateArg:
  "self (setStateArg st k) = (case detached k of None \<Rightarrow> (self k)\<lparr>state := st\<rparr> | Some old \<Rightarrow> self k)"
  by (simp add: setStateArg_def split: option.splits)

lemma checkCanPlay_halts:
  "\<not> fst (checkCanPlay tck maxT st) \<Longrightarrow>
   snd (checkCanPlay tck maxT st) = st\<lparr>canPlay := False, isPlaying := Some False\<rparr>"
  by (auto simp: checkCanPlay_def split: if_splits)

lemma checkCanPlay_goes:
  "fst (checkCanPlay tck maxT st) \<Longrightarrow> canPlay st \<and> tck \<le> maxT"
  by (simp add: checkCanPlay_def split: if_splits)

lemma updateLoop_preserves:
  assumes "Q k"
      and step: "\<And>k t d. Q k \<Longrightarrow> Q (snd (loopBody props shouldStop t d k))"
      and halt: "\<And>k. Q k \<Longrightarrow> Q (setStateArg ((stateArg k)\<lparr>canPlay := False, isPlaying := Some False\<rparr>) k)"
  shows "Q (updateLoop props target shouldStop tck dat k)"
  using assms
proof (induction props target shouldStop tck dat k rule: updateLoop.induct)
  case (1 props target shouldStop tck dat k)
  note step = "1.prems"(2) and halt = "1.prems"(3)
  show ?case
  proof (cases "tck < target")
    case False
    then show ?thesis using "1.prems"(1) by (subst updateLoop.simps) simp
  next
    case True
    show ?thesis
    proof (cases "fst (checkCanPlay tck (maxTime props) (stateArg k))")
      case go: True
      have "Q (snd (loopBody props shouldStop (tck + 1) dat k))"
        using "1.prems"(1) by (rule step)
      then have "Q (updateLoop props target shouldStop (tck + 1)
                     (fst (loopBody props shouldStop (tck + 1) dat k))
                     (snd (loopBody props shouldStop (tck + 1) dat k)))"
        using "1.IH" [OF True go _ step halt] by blast
      then show ?thesis using True go by (subst updateLoop.simps) simp
    next
      case stop: False
      have "Q (setStateArg ((stateArg k)\<lparr>canPlay := False, isPlaying := Some False\<rparr>) k)"
        using "1.prems"(1) by (rule halt)
      then show ?thesis
        using True stop by (subst updateLoop.simps) (simp add: checkCanPlay_halts)
    qed
  qed
qed

lemma foldl_preserves:
  assumes "Q k" and "\<And>k c. Q k \<Longrightarrow> Q (f k c)"
  shows "Q (foldl f k cs)"
  using assms(1) by (induction cs arbitrary: k) (simp_all add: assms(2))

lemma loopBody_preserves:
  assumes "Q k"
      and log: "\<And>k c. Q k \<Longrightarrow> Q (k\<lparr>self := (self k)\<lparr>calls := calls (self k) @ [c]\<rparr>\<rparr>)"
      and caps: "\<And>k c. Q k \<Longrightarrow> Q (runCapability props k c)"
      and cache: "\<And>k t d. Q k \<Longrightarrow> Q (cacheTick props t d k)"
      and wdata: "\<And>k d. Q k \<Longrightarrow> Q (setStateArg ((stateArg k)\<lparr>data := d\<rparr>) k)"
      and wtick: "\<And>k t. Q k \<Longrightarrow> Q (setStateArg ((stateArg k)\<lparr>tick := t\<rparr>) k)"
      and wstop: "\<And>k. Q k \<Longrightarrow> Q (setStateArg ((stateArg k)\<lparr>isPlaying := Some False\<rparr>) k)"
  shows "Q (snd (loopBody props shouldStop t d k))"
proof -
  define args where "args = \<lparr>argCachedData = cachedData (stateArg k), argData = d,
                  argTick = t, argParams = params (stateArg k)\<rparr>"
  define k0 where "k0 = k\<lparr>self := (self k)\<lparr>calls := calls (self k) @ [UpdateDataCall args]\<rparr>\<rparr>"
  define k1 where "k1 = foldl (runCapability props) k0 (fst (updateData props args))"
  define k2 where "k2 = cacheTick props t (snd (updateData props args)) k1"
  define k3 where "k3 = setStateArg ((stateArg k2)\<lparr>data := snd (updateData props args)\<rparr>) k2"
  define k4 where "k4 = setStateArg ((stateArg k3)\<lparr>tick := t\<rparr>) k3"
  define k5 where "k5 = (if shouldStop then setStateArg ((stateArg k4)\<lparr>isPlaying := Some False\<rparr>) k4 else k4)"
  have "Q k0" unfolding k0_def using assms(1) by (rule log)
  then have "Q k1" unfolding k1_def by (rule foldl_preserves) (rule caps)
  then have "Q k2" unfolding k2_def by (rule cache)
  then have "Q k3" unfolding k3_def by (rule wdata)
  then have "Q k4" unfolding k4_def by (rule wtick)
  then have "Q k5" unfolding k5_def by (simp add: wstop)
  then have "Q (k5\<lparr>self := (self k5)\<lparr>calls := calls (self k5) @
        [RenderCall \<lparr>argCachedData = cachedData (state (self k5)), argData = data (state (self k5)),
                     argTick = tick (state (self k5)), argParams = params (state (self k5))\<rparr>]\<rparr>\<rparr>)"
    by (rule log)
  moreover have "snd (loopBody props shouldStop t d k) = k5\<lparr>self := render (self k5)\<rparr>"
    by (simp add: loopBody_def Let_def k5_def k4_def k3_def k2_def k1_def k0_def args_def)
  ultimately show ?thesis by (simp add: render_def)
qed

lemma stateArg_writeCachedData [simp]:
  "stateArg (writeCachedData props f k) = (stateArg k)\<lparr>cachedData := f (cachedData (stateArg k))\<rparr>"
  by (simp add: stateArg_def writeCachedData_def split: option.splits)

lemma detached_writeCachedData [simp]:
  "detached (writeCachedData props f k) =
     (case detached k of None \<Rightarrow> None | Some old \<Rightarrow> Some (old\<lparr>cachedData := f (cachedData old)\<rparr>))"
  by (simp add: writeCachedData_def split: option.splits)

lemma self_writeCachedData:
  "self (writeCachedData props f k) =
     (case detached k of
        None \<Rightarrow> (self k)\<lparr>state := (state (self k))\<lparr>cachedData := f (cachedData (state (self k)))\<rparr>\<rparr>
      | Some old \<Rightarrow> if clearsDataCacheOnReset props then self k
                     else (self k)\<lparr>state := (state (self k))\<lparr>cachedData := f (cachedData (state (self k)))\<rparr>\<rparr>)"
  by (simp add: writeCachedData_def split: option.splits)

lemma stateArg_cacheTick:
  "stateArg (cacheTick props tck dat k) = cacheStep (dataCacheSize props) tck dat (stateArg k)"
  by (simp add: cacheTick_def cacheStep_def Let_def)

lemma detached_cacheTick: "(detached (cacheTick props tck dat k) = None) = (detached k = None)"
  by (cases "detached k") (simp_all add: cacheTick_def Let_def)

lemma self_cacheTick_attached:
  assumes "detached k = None"
  shows "self (cacheTick props tck dat k)
           = (self k)\<lparr>state := cacheStep (dataCacheSize props) tck dat (state (self k))\<rparr>"
proof -
  have "detached (cacheTick props tck dat k) = None"
    using assms by (simp add: detached_cacheTick)
  then have "state (self (cacheTick props tck dat k)) = cacheStep (dataCacheSize props) tck dat (state (self k))"
    using stateArg_cacheTick [of props tck dat k] assms by (simp add: stateArg_def)
  moreover have "pending (self (cacheTick props tck dat k)) = pending (self k)
      \<and> nextHandle (self (cacheTick props tck dat k)) = nextHandle (self k)
      \<and> calls (self (cacheTick props tck dat k)) = calls (self k)"
    using assms by (simp add: cacheTick_def Let_def self_setStateArg self_writeCachedData)
  ultimately show ?thesis by simp
qed

lemma self_cacheTick_detached:
  assumes "detached k = Some old"
  shows "self (cacheTick props tck dat k) =
           (if clearsDataCacheOnReset props then self k
            else (self k)\<lparr>state := (state (self k))\<lparr>cachedData :=
                   cachedData (cacheStep (dataCacheSize props) tck dat
                     (old\<lparr>cachedData := cachedData (state (self k))\<rparr>))\<rparr>\<rparr>)"
  using assms
  by (simp add: cacheTick_def cacheStep_def Let_def self_setStateArg self_writeCachedData stateArg_def)

lemma cacheStep_frame [simp]:
  "timer (cacheStep b t d st) = timer st"
  "canPlay (cacheStep b t d st) = canPlay st"
  "isPlaying (cacheStep b t d st) = isPlaying st"
  "results (cacheStep b t d st) = results st"
  by (simp_all add: cacheStep_def)

lemma cacheTick_self_frame:
  "pending (self (cacheTick props t d k)) = pending (self k)"
  "calls (self (cacheTick props t d k)) = calls (self k)"
  "timer (state (self (cacheTick props t d k))) = timer (state (self k))"
  "canPlay (state (self (cacheTick props t d k))) = canPlay (state (self k))"
  "isPlaying (state (self (cacheTick props t d k))) = isPlaying (state (self k))"
  "results (state (self (cacheTick props t d k))) = results (state (self k))"
  by (cases "detached k"; simp add: self_cacheTick_attached self_cacheTick_detached)+

lemma self_stopCap: "self (stopCap props k) = stop props (self k)"
  by (simp add: stopCap_def stop_def Let_def)

lemma self_complete:
  "self (complete props r k) =
     stop props (self (setStateArg ((stateArg k)\<lparr>results := pushResult (resultsCacheSize props) r (results (stateArg k)),
                                                   canPlay := False\<rparr>) k))"
  by (simp add: complete_def Let_def self_stopCap)

lemma canPlay_stop [simp]: "canPlay (state (stop props m)) = True"
  by (simp add: stop_def reset_def Let_def)

lemma timer_stop [simp]: "timer (state (stop props m)) = None"
  by (simp add: stop_def reset_def Let_def)

lemma isPlaying_pause [simp]: "isPlaying (state (pause m)) = Some False"
  by (simp add: pause_def Let_def)

lemma flags_runCapability: "flagsInvariant (self (runCapability props k c))"
  by (cases c) (simp_all add: flagsInvariant_def self_complete self_stopCap pauseCap_def)

lemma flags_loopBody:
  assumes "flagsInvariant (self k)"
  shows "flagsInvariant (self (snd (loopBody props shouldStop t d k)))"
  using assms
proof (rule loopBody_preserves [where Q = "\<lambda>k. flagsInvariant (self k)"])
  fix k :: "('a, 'b) Activation" and c
  show "flagsInvariant (self (runCapability props k c))" by (rule flags_runCapability)
next
  fix k :: "('a, 'b) Activation" and t d
  assume "flagsInvariant (self k)"
  then show "flagsInvariant (self (cacheTick props t d k))"
    by (simp add: flagsInvariant_def cacheTick_self_frame)
qed (auto simp: flagsInvariant_def self_setStateArg stateArg_def split: option.splits)

lemma flags_updateLoop:
  assumes "flagsInvariant (self k)"
  shows "flagsInvariant (self (updateLoop props target shouldStop tck dat k))"
  using assms
proof (rule updateLoop_preserves [where Q = "\<lambda>k. flagsInvariant (self k)"])
  fix k :: "('a, 'b) Activation" and t d
  assume "flagsInvariant (self k)"
  then show "flagsInvariant (self (snd (loopBody props shouldStop t d k)))"
    by (rule flags_loopBody)
qed (auto simp: flagsInvariant_def self_setStateArg stateArg_def split: option.splits)

lemma flags_updateToTick:
  assumes "flagsInvariant m"
  shows "flagsInvariant (updateToTick props target shouldStop m)"
  using assms by (simp add: updateToTick_def Let_def flags_updateLoop)

lemma flags_stopAndCancelTimer:
  "flagsInvariant (stopAndCancelTimer m) = flagsInvariant m"
  by (simp add: flagsInvariant_def stopAndCancelTimer_def cancelAnimationFrame_def Let_def
        split: option.splits)

lemma reschedule_flags:
  "canPlay (state (reschedule m)) = canPlay (state m)"
  "isPlaying (state (reschedule m)) = isPlaying (state m)"
  by (simp_all add: reschedule_def Let_def requestAnimationFrame_def cancelAnimationFrame_def
        split: option.splits)

lemma flags_advance: "flagsInvariant (advance props ts m)"
proof (cases "fst (checkCanPlay (tick (state m)) (maxTime props) (state m))")
  case False
  then show ?thesis
    by (simp add: advance_def checkCanPlay_halts flagsInvariant_def)
next
  case True
  then have cp: "canPlay (state m)" by (simp add: checkCanPlay_def split: if_splits)
  define m1 where "m1 = (if time (state m) = None
                   then m\<lparr>state := (state m)\<lparr>time := Some ts\<rparr>\<rparr> else m)"
  define m2 where "m2 = (if ts - (case time (state m1) of Some t \<Rightarrow> t | None \<Rightarrow> ts) \<ge> delay props
                   then updateToTick props (tick (state m1) + ticksPerAnimation props) False
                          (m1\<lparr>state := (state m1)\<lparr>time := Some ts\<rparr>\<rparr>)
                   else m1)"
  have "flagsInvariant m1" using cp by (simp add: m1_def flagsInvariant_def)
  then have "flagsInvariant (m1\<lparr>state := (state m1)\<lparr>time := Some ts\<rparr>\<rparr>)"
    by (simp add: flagsInvariant_def)
  then have f2: "flagsInvariant m2"
    using \<open>flagsInvariant m1\<close> by (simp add: m2_def flags_updateToTick)
  have "advance props ts m = reschedule m2"
    using True by (simp add: advance_def Let_def m2_def m1_def)
  then show ?thesis
    using f2 by (simp add: flagsInvariant_def reschedule_flags)
qed

lemma flags_op:
  assumes "flagsInvariant m" and "op \<noteq> Play"
  shows "flagsInvariant (apply_op props m op)"
proof (cases op)
  case Play
  then show ?thesis using assms by simp
next
  case PauseOp
  then show ?thesis by (simp add: flagsInvariant_def)
next
  case StopOp
  then show ?thesis by (simp add: flagsInvariant_def)
next
  case (SetTick target)
  then show ?thesis
    using assms by (simp add: setTick_def flags_updateToTick flags_stopAndCancelTimer)
next
  case (SetParams p)
  then show ?thesis using assms by (simp add: setParams_def flagsInvariant_def Let_def)
next
  case (SetData d)
  then show ?thesis by (simp add: setData_def flagsInvariant_def Let_def)
next
  case (Frame ts)
  then show ?thesis using assms by (simp add: frame_def flags_advance split: list.splits)
qed

lemma play_flags:
  "isPlaying (state (play m)) = Some True \<and> canPlay (state (play m)) = canPlay (state m)
   \<and> pending (play m) \<noteq> []"
  by (simp add: play_def requestAnimationFrame_def Let_def)

subsection \<open>Cancelling the outstanding callback\<close>

lemma stopAndCancelTimer_idle:
  "timer (state m) = None \<Longrightarrow> stopAndCancelTimer m = m"
  by (simp add: stopAndCancelTimer_def)

lemma stopAndCancelTimer_cancels:
  assumes "timer (state m) = Some h" and "h \<noteq> 0"
  shows "cancelled h (calls m) (pending m) (stopAndCancelTimer m)"
  using assms
  by (simp add: cancelled_def stopAndCancelTimer_def cancelAnimationFrame_def Let_def)

lemma cancelled_state_update:
  assumes "cancelled h cs ps m" and "timer st = None"
  shows "cancelled h cs ps (m\<lparr>state := st\<rparr>)"
  using assms by (simp add: cancelled_def)

lemma cancelled_pause: "cancelled h cs ps m \<Longrightarrow> cancelled h cs ps (pause m)"
  by (simp add: cancelled_def pause_def stopAndCancelTimer_idle Let_def)

lemma cancelled_stop: "cancelled h cs ps m \<Longrightarrow> cancelled h cs ps (stop props m)"
  by (simp add: cancelled_def stop_def stopAndCancelTimer_idle reset_def Let_def)

lemma cancelled_runCapability:
  assumes "cancelled h cs ps (self k)"
  shows "cancelled h cs ps (self (runCapability props k c))"
proof (cases c)
  case (Complete r)
  have "cancelled h cs ps (self (setStateArg ((stateArg k)\<lparr>results := pushResult (resultsCacheSize props) r (results (stateArg k)),
                                                   canPlay := False\<rparr>) k))"
    using assms by (auto simp: cancelled_def self_setStateArg stateArg_def split: option.splits)
  then show ?thesis using Complete by (simp add: self_complete cancelled_stop)
next
  case Stop
  then show ?thesis using assms by (simp add: self_stopCap cancelled_stop)
next
  case Pause
  then show ?thesis using assms by (simp add: pauseCap_def cancelled_pause)
qed

lemma cancelled_loopBody:
  assumes "cancelled h cs ps (self k)"
  shows "cancelled h cs ps (self (snd (loopBody props shouldStop t d k)))"
  using assms
proof (rule loopBody_preserves [where Q = "\<lambda>k. cancelled h cs ps (self k)"])
  fix k :: "('a, 'b) Activation" and c
  assume "cancelled h cs ps (self k)"
  then show "cancelled h cs ps (self (runCapability props k c))" by (rule cancelled_runCapability)
next
  fix k :: "('a, 'b) Activation" and t d
  assume "cancelled h cs ps (self k)"
  then show "cancelled h cs ps (self (cacheTick props t d k))"
    by (simp add: cancelled_def cacheTick_self_frame)
qed (auto simp: cancelled_def self_setStateArg stateArg_def split: option.splits)

lemma cancelled_updateLoop:
  assumes "cancelled h cs ps (self k)"
  shows "cancelled h cs ps (self (updateLoop props target shouldStop tck dat k))"
  using assms
proof (rule updateLoop_preserves [where Q = "\<lambda>k. cancelled h cs ps (self k)"])
  fix k :: "('a, 'b) Activation" and t d
  assume "cancelled h cs ps (self k)"
  then show "cancelled h cs ps (self (snd (loopBody props shouldStop t d k)))"
    by (rule cancelled_loopBody)
qed (auto simp: cancelled_def self_setStateArg stateArg_def split: option.splits)

lemma cancelled_updateToTick:
  assumes "cancelled h cs ps m"
  shows "cancelled h cs ps (updateToTick props target shouldStop m)"
  using assms by (simp add: updateToTick_def Let_def cancelled_updateLoop)

lemma setParams_only_params:
  "setParams props upd m = m\<lparr>state := (state m)\<lparr>params := params (state m) ++ upd\<rparr>\<rparr>"
  by (simp add: setParams_def Let_def)

lemma removeAll_sole: "set ps \<subseteq> {h} \<Longrightarrow> removeAll h ps = []"
  by (induction ps) auto

lemma cancelled_outcome:
  assumes "cancelled h cs ps m"
  shows "timer (state m) = None \<and> h \<notin> set (pending m)
       \<and> (set ps \<subseteq> {h} \<longrightarrow> pending m = [])
       \<and> prefix (cs @ [CancelFrame h]) (calls m)"
  using assms by (simp add: cancelled_def removeAll_sole)

subsection \<open>One outstanding callback\<close>

lemma quiet_stopAndCancelTimer:
  "quiet n m \<Longrightarrow> quiet n (stopAndCancelTimer m)"
  by (simp add: quiet_def stopAndCancelTimer_def cancelAnimationFrame_def Let_def
        split: option.splits)

lemma quiet_state_update [simp]: "quiet n (m\<lparr>state := st\<rparr>) = quiet n m"
  by (simp add: quiet_def)

lemma quiet_pause: "quiet n m \<Longrightarrow> quiet n (pause m)"
  by (simp add: pause_def Let_def quiet_stopAndCancelTimer)

lemma quiet_stop: "quiet n m \<Longrightarrow> quiet n (stop props m)"
  by (simp add: stop_def Let_def quiet_stopAndCancelTimer)

lemma quiet_runCapability:
  assumes "quiet n (self k)"
  shows "quiet n (self (runCapability props k c))"
proof (cases c)
  case (Complete r)
  have "quiet n (self (setStateArg ((stateArg k)\<lparr>results := pushResult (resultsCacheSize props) r (results (stateArg k)),
                                                   canPlay := False\<rparr>) k))"
    using assms by (simp add: self_setStateArg split: option.splits)
  then show ?thesis using Complete by (simp add: self_complete quiet_stop)
next
  case Stop
  then show ?thesis using assms by (simp add: self_stopCap quiet_stop)
next
  case Pause
  then show ?thesis using assms by (simp add: pauseCap_def quiet_pause)
qed

lemma nextHandle_cacheTick:
  "nextHandle (self (cacheTick props t d k)) = nextHandle (self k)"
  by (cases "detached k"; simp add: self_cacheTick_attached self_cacheTick_detached)

lemma quiet_loopBody:
  assumes "quiet n (self k)"
  shows "quiet n (self (snd (loopBody props shouldStop t d k)))"
  using assms
proof (rule loopBody_preserves [where Q = "\<lambda>k. quiet n (self k)"])
  fix k :: "('a, 'b) Activation" and c
  assume "quiet n (self k)"
  then show "quiet n (self (runCapability props k c))" by (rule quiet_runCapability)
next
  fix k :: "('a, 'b) Activation" and t d
  assume "quiet n (self k)"
  then show "quiet n (self (cacheTick props t d k))"
    by (simp add: quiet_def cacheTick_self_frame nextHandle_cacheTick)
next
  fix k :: "('a, 'b) Activation" and c
  assume "quiet n (self k)"
  then show "quiet n (self (k\<lparr>self := (self k)\<lparr>calls := calls (self k) @ [c]\<rparr>\<rparr>))"
    by (simp add: quiet_def)
qed (simp_all add: self_setStateArg split: option.splits)

lemma quiet_updateLoop:
  assumes "quiet n (self k)"
  shows "quiet n (self (updateLoop props target shouldStop tck dat k))"
  using assms
proof (rule updateLoop_preserves [where Q = "\<lambda>k. quiet n (self k)"])
  fix k :: "('a, 'b) Activation" and t d
  assume "quiet n (self k)"
  then show "quiet n (self (snd (loopBody props shouldStop t d k)))"
    by (rule quiet_loopBody)
qed (simp_all add: self_setStateArg split: option.splits)

lemma quiet_updateToTick:
  assumes "quiet n m"
  shows "quiet n (updateToTick props target shouldStop m)"
  using assms by (simp add: updateToTick_def Let_def quiet_updateLoop)

lemma quiet_sole: "quiet n m \<Longrightarrow> 0 < n \<Longrightarrow> soleSchedule m"
  by (simp add: quiet_def soleSchedule_def)

lemma sole_stopAndCancelTimer:
  assumes "soleSchedule m"
  shows "quiet (nextHandle m) (stopAndCancelTimer m)"
  using assms
  by (auto simp: soleSchedule_def quiet_def stopAndCancelTimer_def cancelAnimationFrame_def Let_def
        split: option.splits list.splits)

lemma sole_reschedule:
  assumes "quiet n m" and "0 < n"
  shows "soleSchedule (reschedule m)"
  using assms
  by (auto simp: soleSchedule_def quiet_def reschedule_def requestAnimationFrame_def
        cancelAnimationFrame_def Let_def split: option.splits)

lemma sole_advance:
  assumes "quiet n m" and "0 < n"
  shows "soleSchedule (advance props ts m)"
proof (cases "fst (checkCanPlay (tick (state m)) (maxTime props) (state m))")
  case False
  then show ?thesis
    using assms by (simp add: advance_def quiet_sole)
next
  case True
  define m1 where "m1 = (if time (state m) = None
                   then m\<lparr>state := (state m)\<lparr>time := Some ts\<rparr>\<rparr> else m)"
  define m2 where "m2 = (if ts - (case time (state m1) of Some t \<Rightarrow> t | None \<Rightarrow> ts) \<ge> delay props
                   then updateToTick props (tick (state m1) + ticksPerAnimation props) False
                          (m1\<lparr>state := (state m1)\<lparr>time := Some ts\<rparr>\<rparr>)
                   else m1)"
  have q1: "quiet n m1" using assms(1) by (simp add: m1_def)
  then have "quiet n (m1\<lparr>state := (state m1)\<lparr>time := Some ts\<rparr>\<rparr>)" by simp
  then have "quiet n m2"
    using q1 by (simp add: m2_def quiet_updateToTick)
  moreover have "advance props ts m = reschedule m2"
    using True by (simp add: advance_def Let_def m2_def m1_def)
  ultimately show ?thesis using assms(2) by (simp add: sole_reschedule)
qed

lemma sole_op:
  assumes "soleSchedule m" and "op = Play \<longrightarrow> pending m = []"
  shows "soleSchedule (apply_op props m op)"
proof -
  have pos: "0 < nextHandle m" using assms(1) by (simp add: soleSchedule_def)
  have halted: "quiet (nextHandle m) (stopAndCancelTimer m)"
    using assms(1) by (rule sole_stopAndCancelTimer)
  show ?thesis
  proof (cases op)
    case Play
    then show ?thesis
      using assms pos by (simp add: play_def requestAnimationFrame_def Let_def soleSchedule_def)
  next
    case PauseOp
    then show ?thesis using halted pos by (simp add: pause_def Let_def quiet_sole)
  next
    case StopOp
    then show ?thesis using halted pos by (simp add: stop_def Let_def quiet_sole)
  next
    case (SetTick target)
    then show ?thesis
      using halted pos quiet_sole [OF quiet_updateToTick [OF halted]]
      by (simp add: setTick_def)
  next
    case (SetParams p)
    then show ?thesis
      using assms(1) by (simp add: setParams_only_params soleSchedule_def split: list.splits)
  next
    case (SetData d)
    have "quiet (nextHandle m) (stopAndCancelTimer (m\<lparr>state := (state m)\<lparr>data := d\<rparr>\<rparr>))"
      using assms(1)
      by (intro sole_stopAndCancelTimer [where m = "m\<lparr>state := (state m)\<lparr>data := d\<rparr>\<rparr>", simplified])
         (simp add: soleSchedule_def split: list.splits)
    then show ?thesis
      using SetData pos by (simp add: setData_def Let_def quiet_sole)
  next
    case (Frame ts)
    show ?thesis
    proof (cases "pending m")
      case Nil
      then show ?thesis using Frame assms(1) by (simp add: frame_def)
    next
      case (Cons h hs)
      then have "quiet (nextHandle m) (m\<lparr>pending := hs\<rparr>)"
        using assms(1) by (simp add: soleSchedule_def quiet_def)
      then show ?thesis
        using Frame Cons pos by (simp add: frame_def sole_advance)
    qed
  qed
qed

lemma sole_schedule_kept:
  assumes "soleSchedule m" and "calm props m ops"
  shows "soleSchedule (run props ops m)"
  using assms
  by (induction ops arbitrary: m) (simp_all add: run_Nil run_Cons sole_op)

lemma sole_schedule_new: "soleSchedule (newModel props)"
  by (simp add: soleSchedule_def newModel_def)

lemma sole_schedule_from_new:
  assumes "calm props (newModel props) ops"
      and "timer (state (run props ops (newModel props))) = Some h"
  shows "set (pending (run props ops (newModel props))) \<subseteq> {h}"
proof -
  have "soleSchedule (run props ops (newModel props))"
    using sole_schedule_new assms(1) by (rule sole_schedule_kept)
  then show ?thesis
    using assms(2) by (auto simp: soleSchedule_def split: list.splits)
qed

subsection \<open>The results buffer\<close>

lemma pushResult_within:
  assumes "length rs \<le> n"
  shows "pushResult (int n) r rs =
           (if 0 < n then (if length rs < n then rs @ [r] else tl rs @ [r]) else rs)"
  using assms by (cases rs) (auto simp: pushResult_def Let_def)

lemma pushResult_bounded:
  assumes "length rs \<le> n"
  shows "length (pushResult (int n) r rs) \<le> n"
  using assms by (auto simp: pushResult_within)

lemma pushResult_drop:
  assumes "length rs \<le> n" and "0 < n"
  shows "pushResult (int n) r rs = drop (Suc (length rs) - n) (rs @ [r])"
  using assms by (cases rs) (auto simp: pushResult_within Suc_diff_le)

lemma foldl_pushResult:
  assumes "length b \<le> n" and "0 < n"
  shows "foldl (\<lambda>b r. pushResult (int n) r b) b rs = drop (length (b @ rs) - n) (b @ rs)"
  using assms(1)
proof (induction rs arbitrary: b)
  case Nil
  then show ?case by simp
next
  case (Cons r rs)
  let ?b = "pushResult (int n) r b"
  have len: "length ?b \<le> n" using Cons.prems by (rule pushResult_bounded)
  have eq: "?b = drop (Suc (length b) - n) (b @ [r])"
    using Cons.prems assms(2) by (rule pushResult_drop)
  have "foldl (\<lambda>b r. pushResult (int n) r b) ?b rs = drop (length (?b @ rs) - n) (?b @ rs)"
    using len by (rule Cons.IH)
  also have "?b @ rs = drop (Suc (length b) - n) (b @ r # rs)"
    using Cons.prems assms(2) by (simp add: eq)
  also have "drop (length (drop (Suc (length b) - n) (b @ r # rs)) - n) (drop (Suc (length b) - n) (b @ r # rs))
             = drop (length (b @ r # rs) - n) (b @ r # rs)"
  proof -
    have "length (b @ r # rs) - (Suc (length b) - n) - n + (Suc (length b) - n) = length (b @ r # rs) - n"
      by simp
    then show ?thesis
      by (simp only: drop_drop length_drop)
  qed
  finally show ?case by simp
qed

lemma results_complete_engine:
  "results (state (self (complete props r \<lparr>self = m, detached = None\<rparr>))) =
     (if clearsResultsCacheOnReset props then []
      else pushResult (resultsCacheSize props) r (results (state m)))"
  by (simp add: self_complete self_setStateArg stateArg_def stop_def reset_def Let_def
        stopAndCancelTimer_def cancelAnimationFrame_def split: option.splits)

lemma results_complete_any:
  "results (state (self (complete props r k))) =
     (if clearsResultsCacheOnReset props then []
      else (case detached k of
              None \<Rightarrow> pushResult (resultsCacheSize props) r (results (state (self k)))
            | Some old \<Rightarrow> results (state (self k))))"
  by (simp add: self_complete self_setStateArg stateArg_def stop_def reset_def Let_def
        stopAndCancelTimer_def cancelAnimationFrame_def split: option.splits)

lemma stateArg_complete:
  "results (stateArg (complete props r k)) = pushResult (resultsCacheSize props) r (results (stateArg k))"
  "canPlay (stateArg (complete props r k)) = False"
  "detached (complete props r k) \<noteq> None"
  by (simp_all add: complete_def stopCap_def Let_def stateArg_def setStateArg_def
        stopAndCancelTimer_def cancelAnimationFrame_def split: option.splits)

lemma results_completions_kept:
  assumes "\<not> clearsResultsCacheOnReset props"
  shows "results (state (completions props rs m)) =
           foldl (\<lambda>b r. pushResult (resultsCacheSize props) r b) (results (state m)) rs"
  unfolding completions_def
  using assms by (induction rs arbitrary: m) (simp_all add: results_complete_engine)

lemma results_completions_cleared:
  assumes "clearsResultsCacheOnReset props" and "rs \<noteq> []"
  shows "results (state (completions props rs m)) = []"
  using assms(2)
proof (induction rs rule: rev_nonempty_induct)
  case (single r)
  then show ?case using assms(1) by (simp add: completions_def results_complete_engine)
next
  case (snoc r rs)
  then show ?case using assms(1) by (simp add: completions_def results_complete_engine)
qed

text \<open>
  A call of \<open>updateToTick\<close> whose first pass calls \<open>complete(r)\<close> before any other
  capability: the instance ends with the results that \<open>complete\<close> followed by \<open>stop\<close>
  leaves, whatever the transition function calls afterwards in that pass.
\<close>

lemma results_stopAndCancelTimer [simp]:
  "results (state (stopAndCancelTimer m)) = results (state m)"
  by (simp add: stopAndCancelTimer_def cancelAnimationFrame_def Let_def split: option.splits)

lemma results_stop:
  "results (state (stop props m)) = (if clearsResultsCacheOnReset props then [] else results (state m))"
  by (simp add: stop_def reset_def Let_def)

lemma lostTo_runCapability:
  assumes "lostTo rs k" and "clearsResultsCacheOnReset props \<longrightarrow> rs = []"
  shows "lostTo rs (runCapability props k c)"
proof -
  obtain old where d: "detached k = Some old" using assms(1) by (auto simp: lostTo_def)
  show ?thesis
  proof (cases c)
    case (Complete r)
    then show ?thesis
      using assms d by (simp add: lostTo_def results_complete_any stateArg_complete)
  next
    case Stop
    then show ?thesis
      using assms d by (simp add: lostTo_def self_stopCap results_stop) (simp add: stopCap_def Let_def stateArg_def)
  next
    case Pause
    then show ?thesis
      using assms d by (simp add: lostTo_def pauseCap_def pause_def Let_def stateArg_def)
  qed
qed

lemma lostTo_capabilities:
  assumes "lostTo rs k" and "clearsResultsCacheOnReset props \<longrightarrow> rs = []"
  shows "lostTo rs (foldl (runCapability props) k cs)"
  using assms(1) by (rule foldl_preserves) (simp add: lostTo_runCapability assms(2))

lemma lostTo_cacheTick:
  assumes "lostTo rs k"
  shows "lostTo rs (cacheTick props t d k)"
  using assms
  by (simp add: lostTo_def detached_cacheTick cacheTick_self_frame stateArg_cacheTick)

lemma lostTo_setStateArg:
  assumes "lostTo rs k" and "canPlay st = False"
  shows "lostTo rs (setStateArg st k)"
  using assms by (auto simp: lostTo_def self_setStateArg split: option.splits)

lemma lostTo_complete:
  assumes "detached k = None"
  shows "lostTo (if clearsResultsCacheOnReset props then []
                 else pushResult (resultsCacheSize props) r (results (state (self k))))
           (complete props r k)"
  using assms by (simp add: lostTo_def results_complete_any stateArg_complete)

lemma lostTo_loopBody:
  assumes "fst (updateData props \<lparr>argCachedData = cachedData (state m), argData = d,
                  argTick = t, argParams = params (state m)\<rparr>) = Complete r # cs"
  shows "lostTo (if clearsResultsCacheOnReset props then []
                 else pushResult (resultsCacheSize props) r (results (state m)))
           (snd (loopBody props shouldStop t d \<lparr>self = m, detached = None\<rparr>))"
proof -
  let ?rs = "if clearsResultsCacheOnReset props then []
             else pushResult (resultsCacheSize props) r (results (state m))"
  define args where "args = \<lparr>argCachedData = cachedData (state m), argData = d,
                  argTick = t, argParams = params (state m)\<rparr>"
  define k0
    where "k0 = \<lparr>self = m\<lparr>calls := calls m @ [UpdateDataCall args]\<rparr>, detached = None\<rparr>"
  define k1 where "k1 = foldl (runCapability props) k0 (fst (updateData props args))"
  define k2 where "k2 = cacheTick props t (snd (updateData props args)) k1"
  define k3 where "k3 = setStateArg ((stateArg k2)\<lparr>data := snd (updateData props args)\<rparr>) k2"
  define k4 where "k4 = setStateArg ((stateArg k3)\<lparr>tick := t\<rparr>) k3"
  define k5 where "k5 = (if shouldStop then setStateArg ((stateArg k4)\<lparr>isPlaying := Some False\<rparr>) k4 else k4)"
  have clr: "clearsResultsCacheOnReset props \<longrightarrow> ?rs = []" by simp
  have "detached k0 = None" and "results (state (self k0)) = results (state m)"
    by (simp_all add: k0_def)
  then have "lostTo ?rs (complete props r k0)"
    using lostTo_complete [of k0 props r]
    by (cases "clearsResultsCacheOnReset props") simp_all
  then have "lostTo ?rs (foldl (runCapability props) (complete props r k0) cs)"
    using clr by (rule lostTo_capabilities)
  then have "lostTo ?rs k1"
    using assms by (simp add: k1_def args_def)
  then have l2: "lostTo ?rs k2" unfolding k2_def by (rule lostTo_cacheTick)
  have l3: "lostTo ?rs k3"
    unfolding k3_def using l2 by (intro lostTo_setStateArg) (simp_all add: lostTo_def)
  have l4: "lostTo ?rs k4"
    unfolding k4_def using l3 by (intro lostTo_setStateArg) (simp_all add: lostTo_def)
  have "lostTo ?rs (setStateArg ((stateArg k4)\<lparr>isPlaying := Some False\<rparr>) k4)"
    using l4 by (intro lostTo_setStateArg) (simp_all add: lostTo_def)
  then have "lostTo ?rs k5" using l4 by (simp add: k5_def)
  then have "lostTo ?rs (k5\<lparr>self := render (self k5)\<rparr>)"
    by (auto simp: lostTo_def render_def stateArg_def)
  moreover have "snd (loopBody props shouldStop t d \<lparr>self = m, detached = None\<rparr>) = k5\<lparr>self := render (self k5)\<rparr>"
    by (simp add: loopBody_def Let_def k5_def k4_def k3_def k2_def k1_def k0_def args_def stateArg_def)
  ultimately show ?thesis by simp
qed

lemma lostTo_halts:
  assumes "lostTo rs k"
  shows "results (state (self (updateLoop props target shouldStop tck dat k))) = rs"
proof -
  have "canPlay (stateArg k) = False" using assms by (simp add: lostTo_def)
  then have "updateLoop props target shouldStop tck dat k =
     (if tck < target
      then setStateArg ((stateArg k)\<lparr>canPlay := False, isPlaying := Some False\<rparr>) k
      else k)"
    by (rule updateLoop_cannot_play)
  then show ?thesis
    using assms by (auto simp: lostTo_def self_setStateArg)
qed

lemma updateToTick_first_completion:
  assumes "target \<notin> cachedDataKeys (state m)"
      and "t0 = (if maxTick (state m) \<in> cachedDataKeys (state m) then maxTick (state m) else tick (state m))"
      and "t0 < target" and "canPlay (state m)" and "t0 \<le> maxTime props"
      and "fst (updateData props \<lparr>argCachedData = cachedData (state m), argData = data (state m),
                  argTick = t0 + 1, argParams = params (state m)\<rparr>) = Complete r # cs"
  shows "results (state (updateToTick props target shouldStop m))
           = (if clearsResultsCacheOnReset props then []
              else pushResult (resultsCacheSize props) r (results (state m)))"
proof -
  let ?k = "\<lparr>self = m, detached = None\<rparr>"
  have go: "fst (checkCanPlay t0 (maxTime props) (stateArg ?k))"
    using assms(4,5) by (simp add: checkCanPlay_def stateArg_def)
  have "updateLoop props target shouldStop t0 (data (state m)) ?k
          = updateLoop props target shouldStop (t0 + 1)
              (fst (loopBody props shouldStop (t0 + 1) (data (state m)) ?k))
              (snd (loopBody props shouldStop (t0 + 1) (data (state m)) ?k))"
    using go assms(3) by (subst updateLoop.simps) simp
  then have "results (state (self (updateLoop props target shouldStop t0 (data (state m)) ?k)))
          = (if clearsResultsCacheOnReset props then []
              else pushResult (resultsCacheSize props) r (results (state m)))"
    using lostTo_halts [OF lostTo_loopBody [OF assms(6)]] by simp
  then show ?thesis
    using assms(1,2) by (simp add: updateToTick_def Let_def)
qed

subsection \<open>Tick 0 in the data cache\<close>

lemma cacheStep_evicts:
  assumes "0 < bound" and "bound \<le> int (length (cachedDataKeysQueue st))"
      and "cachedDataKeysQueue st = q # qs"
  shows "cachedDataKeysQueue (cacheStep bound tck dat st) = qs @ [tck]"
    and "q \<noteq> 0 \<Longrightarrow> cachedDataKeys (cacheStep bound tck dat st) = cachedDataKeys st - {q}"
    and "q \<noteq> 0 \<Longrightarrow> cachedData (cacheStep bound tck dat st) = ((cachedData st)(q := None))(tck \<mapsto> dat)"
    and "q = 0 \<Longrightarrow> cachedDataKeys (cacheStep bound tck dat st) = cachedDataKeys st"
    and "q = 0 \<Longrightarrow> cachedData (cacheStep bound tck dat st) = (cachedData st)(tck \<mapsto> dat)"
  using assms by (simp_all add: cacheStep_def)

lemma cacheStep_keeps_zero_data:
  "cachedData st 0 \<noteq> None \<Longrightarrow> cachedData (cacheStep bound tck dat st) 0 \<noteq> None"
  by (simp add: cacheStep_def)

lemma cacheStep_keeps_zero:
  "zeroCached st \<Longrightarrow> zeroCached (cacheStep bound tck dat st)"
  by (simp add: cacheStep_def zeroCached_def)

lemma zeroCached_reset:
  assumes "\<not> clearsDataCacheOnReset props" and "zeroCached st"
  shows "zeroCached (reset props (Some st))"
  using assms by (simp add: zeroCached_def reset_def Let_def)

lemma zeroCached_stopAndCancelTimer:
  "zeroCached (state (stopAndCancelTimer m)) = zeroCached (state m)"
  by (simp add: zeroCached_def stopAndCancelTimer_def cancelAnimationFrame_def Let_def
        split: option.splits)

lemma zeroCached_stop:
  assumes "\<not> clearsDataCacheOnReset props" and "zeroCached (state m)"
  shows "zeroCached (state (stop props m))"
proof -
  have "zeroCached ((state (stopAndCancelTimer m))\<lparr>isPlaying := Some False\<rparr>)"
    using assms(2) zeroCached_stopAndCancelTimer [of m] by (simp add: zeroCached_def)
  then show ?thesis
    using assms(1) by (simp add: stop_def Let_def zeroCached_reset)
qed

lemma zeroCached_pause:
  assumes "zeroCached (state m)"
  shows "zeroCached (state (pause m))"
  using assms zeroCached_stopAndCancelTimer [of m] by (simp add: pause_def Let_def zeroCached_def)

lemma zeroKept_stopCap:
  assumes "\<not> clearsDataCacheOnReset props" and "zeroKept k"
  shows "zeroKept (stopCap props k)"
proof -
  have s: "zeroCached (state (self (stopCap props k)))"
    using assms by (simp add: self_stopCap zeroCached_stop zeroKept_def)
  have "zeroCached ((state (stopAndCancelTimer (self k)))\<lparr>isPlaying := Some False\<rparr>)"
    using assms(2) zeroCached_stopAndCancelTimer [of "self k"] by (simp add: zeroCached_def zeroKept_def)
  then have "zeroCached (stateArg (stopCap props k))"
    using assms(2) by (simp add: stopCap_def Let_def stateArg_def zeroKept_def split: option.splits)
  then show ?thesis using s by (simp add: zeroKept_def)
qed

lemma zeroKept_setStateArg:
  assumes "zeroKept k" and "zeroCached st"
  shows "zeroKept (setStateArg st k)"
  using assms by (simp add: zeroKept_def self_setStateArg split: option.splits)

lemma zeroKept_pauseCap:
  assumes "zeroKept k"
  shows "zeroKept (pauseCap k)"
proof (cases "detached k")
  case None
  then show ?thesis
    using assms zeroCached_pause [of "self k"] by (simp add: zeroKept_def pauseCap_def stateArg_def)
next
  case (Some old)
  then show ?thesis
    using assms zeroCached_pause [of "self k"] by (simp add: zeroKept_def pauseCap_def stateArg_def)
qed

lemma zeroKept_runCapability:
  assumes "\<not> clearsDataCacheOnReset props" and "zeroKept k"
  shows "zeroKept (runCapability props k c)"
proof (cases c)
  case (Complete r)
  have "zeroKept (setStateArg ((stateArg k)\<lparr>results := pushResult (resultsCacheSize props) r (results (stateArg k)),
                                              canPlay := False\<rparr>) k)"
    using assms(2) by (intro zeroKept_setStateArg) (simp_all add: zeroKept_def zeroCached_def)
  then show ?thesis
    using Complete assms(1) by (simp add: complete_def Let_def zeroKept_stopCap)
next
  case Stop
  then show ?thesis using assms by (simp add: zeroKept_stopCap)
next
  case Pause
  then show ?thesis using assms by (simp add: zeroKept_pauseCap)
qed

lemma zeroKept_cacheTick:
  assumes "\<not> clearsDataCacheOnReset props" and "zeroKept k"
  shows "zeroKept (cacheTick props t d k)"
proof (cases "detached k")
  case None
  then show ?thesis
    using assms(2) stateArg_cacheTick [of props t d k]
    by (simp add: zeroKept_def self_cacheTick_attached cacheStep_keeps_zero stateArg_def)
next
  case (Some old)
  have "zeroCached (stateArg (cacheTick props t d k))"
    using assms(2) by (simp add: stateArg_cacheTick cacheStep_keeps_zero zeroKept_def)
  moreover have "zeroCached (state (self (cacheTick props t d k)))"
    using assms Some
    by (simp add: self_cacheTick_detached zeroKept_def zeroCached_def cacheStep_keeps_zero_data)
  ultimately show ?thesis by (simp add: zeroKept_def)
qed

lemma zeroKept_loopBody:
  assumes "\<not> clearsDataCacheOnReset props" and "zeroKept k"
  shows "zeroKept (snd (loopBody props shouldStop t d k))"
  using assms(2)
proof (rule loopBody_preserves [where Q = zeroKept])
  fix k :: "('a, 'b) Activation" and c
  assume "zeroKept k"
  then show "zeroKept (runCapability props k c)" using assms(1) by (simp add: zeroKept_runCapability)
next
  fix k :: "('a, 'b) Activation" and t d
  assume "zeroKept k"
  then show "zeroKept (cacheTick props t d k)" using assms(1) by (simp add: zeroKept_cacheTick)
next
  fix k :: "('a, 'b) Activation" and c
  assume "zeroKept k"
  then show "zeroKept (k\<lparr>self := (self k)\<lparr>calls := calls (self k) @ [c]\<rparr>\<rparr>)"
    by (simp add: zeroKept_def stateArg_def split: option.splits)
qed (auto simp: zeroKept_def zeroCached_def self_setStateArg stateArg_def split: option.splits)

lemma zeroKept_updateLoop:
  assumes "\<not> clearsDataCacheOnReset props" and "zeroKept k"
  shows "zeroKept (updateLoop props target shouldStop tck dat k)"
  using assms(2)
proof (rule updateLoop_preserves [where Q = zeroKept])
  fix k :: "('a, 'b) Activation" and t d
  assume "zeroKept k"
  then show "zeroKept (snd (loopBody props shouldStop t d k))"
    using assms(1) by (simp add: zeroKept_loopBody)
qed (auto simp: zeroKept_def zeroCached_def self_setStateArg stateArg_def split: option.splits)

lemma zeroCached_updateToTick:
  assumes "\<not> clearsDataCacheOnReset props" and "zeroCached (state m)"
  shows "zeroCached (state (updateToTick props target shouldStop m))"
proof -
  have "zeroKept \<lparr>self = m, detached = None\<rparr>"
    using assms(2) by (simp add: zeroKept_def stateArg_def)
  then have "zeroKept (updateLoop props target shouldStop tck dat \<lparr>self = m, detached = None\<rparr>)" for tck dat
    using assms(1) by (simp add: zeroKept_updateLoop)
  then show ?thesis
    using assms(2) by (simp add: updateToTick_def Let_def zeroKept_def)
qed

lemma zeroCached_reschedule:
  "zeroCached (state (reschedule m)) = zeroCached (state m)"
  by (simp add: reschedule_def zeroCached_def Let_def requestAnimationFrame_def
        cancelAnimationFrame_def split: option.splits)

lemma zeroCached_advance:
  assumes "\<not> clearsDataCacheOnReset props" and "zeroCached (state m)"
  shows "zeroCached (state (advance props ts m))"
proof (cases "fst (checkCanPlay (tick (state m)) (maxTime props) (state m))")
  case False
  then show ?thesis
    using assms(2) by (simp add: advance_def checkCanPlay_halts zeroCached_def)
next
  case True
  define m1 where "m1 = (if time (state m) = None
                   then m\<lparr>state := (state m)\<lparr>time := Some ts\<rparr>\<rparr> else m)"
  define m2 where "m2 = (if ts - (case time (state m1) of Some t \<Rightarrow> t | None \<Rightarrow> ts) \<ge> delay props
                   then updateToTick props (tick (state m1) + ticksPerAnimation props) False
                          (m1\<lparr>state := (state m1)\<lparr>time := Some ts\<rparr>\<rparr>)
                   else m1)"
  have z1: "zeroCached (state m1)" using assms(2) by (simp add: m1_def zeroCached_def)
  then have "zeroCached (state (m1\<lparr>state := (state m1)\<lparr>time := Some ts\<rparr>\<rparr>))"
    by (simp add: zeroCached_def)
  then have "zeroCached (state m2)"
    using z1 assms(1) by (simp add: m2_def zeroCached_updateToTick)
  moreover have "advance props ts m = reschedule m2"
    using True by (simp add: advance_def Let_def m2_def m1_def)
  ultimately show ?thesis by (simp add: zeroCached_reschedule)
qed

lemma zeroCached_op:
  assumes "\<not> clearsDataCacheOnReset props" and "zeroCached (state m)"
  shows "zeroCached (state (apply_op props m op))"
proof (cases op)
  case Play
  then show ?thesis
    using assms(2) by (simp add: play_def requestAnimationFrame_def Let_def zeroCached_def)
next
  case PauseOp
  then show ?thesis using assms(2) by (simp add: zeroCached_pause)
next
  case StopOp
  then show ?thesis using assms by (simp add: zeroCached_stop)
next
  case (SetTick target)
  then show ?thesis
    using assms by (simp add: setTick_def zeroCached_updateToTick zeroCached_stopAndCancelTimer)
next
  case (SetParams p)
  then show ?thesis using assms(2) by (simp add: setParams_only_params zeroCached_def)
next
  case (SetData d)
  have "zeroCached (state (stopAndCancelTimer (m\<lparr>state := (state m)\<lparr>data := d\<rparr>\<rparr>)))"
    using assms(2) by (simp add: zeroCached_stopAndCancelTimer) (simp add: zeroCached_def)
  then show ?thesis using SetData by (simp add: setData_def Let_def zeroCached_def)
next
  case (Frame ts)
  then show ?thesis
    using assms by (simp add: frame_def zeroCached_advance split: list.splits)
qed

lemma zeroCached_run:
  assumes "\<not> clearsDataCacheOnReset props" and "zeroCached (state m)"
  shows "zeroCached (state (run props ops m))"
  using assms(2)
  by (induction ops arbitrary: m) (simp_all add: run_Nil run_Cons zeroCached_op assms(1))

subsection \<open>The incrementer under \<open>play\<close> and the clock\<close>

lemma incrementer_fields [simp]:
  "maxTime incrementer = 10" "dataCacheSize incrementer = 0" "ticksPerAnimation incrementer = 1"
  "updateData incrementer = incrementerUpdateData" "initialTick incrementer = 0"
  "initData incrementer = incrementerInitData"
  by (simp_all add: incrementer_def defaultProps_def)

lemma incrementer_step:
  "state (self (snd (loopBody incrementer False t d \<lparr>self = m, detached = None\<rparr>)))
     = (state m)\<lparr>data := d + 1, tick := t\<rparr>"
  by (simp add: loopBody_def cacheTick_def incrementerUpdateData_def Let_def render_def
        self_setStateArg stateArg_def)

lemma incrementer_step_attached:
  "detached (snd (loopBody incrementer False t d \<lparr>self = m, detached = None\<rparr>)) = None"
  by (simp add: loopBody_def cacheTick_def incrementerUpdateData_def Let_def)

lemma incrementer_updateToTick:
  assumes "incrementerRun m" and "canPlay (state m)" and "tick (state m) \<le> 10"
  shows "state (updateToTick incrementer (tick (state m) + 1) False m)
           = (state m)\<lparr>data := data (state m) + 1, tick := tick (state m) + 1\<rparr>"
proof -
  let ?k = "\<lparr>self = m, detached = None\<rparr>"
  let ?k' = "snd (loopBody incrementer False (tick (state m) + 1) (data (state m)) ?k)"
  have go: "fst (checkCanPlay (tick (state m)) (maxTime incrementer) (stateArg ?k))"
    using assms by (simp add: checkCanPlay_def stateArg_def)
  have "updateLoop incrementer (tick (state m) + 1) False (tick (state m)) (data (state m)) ?k
          = updateLoop incrementer (tick (state m) + 1) False (tick (state m) + 1)
              (fst (loopBody incrementer False (tick (state m) + 1) (data (state m)) ?k)) ?k'"
    using go by (subst updateLoop.simps) simp
  also have "\<dots> = ?k'"
    by (subst updateLoop.simps) simp
  finally show ?thesis
    using assms(1) by (simp add: updateToTick_def Let_def incrementerRun_def incrementer_step)
qed

lemma incrementerRun_advance:
  assumes "incrementerRun m"
  shows "incrementerRun (advance incrementer ts m)"
proof (cases "fst (checkCanPlay (tick (state m)) (maxTime incrementer) (state m))")
  case False
  then have "canPlay (state m) = False \<or> tick (state m) > 10"
    by (simp add: checkCanPlay_def split: if_splits)
  then have "tick (state m) = 11" using assms by (auto simp: incrementerRun_def)
  then show ?thesis
    using False assms by (simp add: advance_def checkCanPlay_halts incrementerRun_def)
next
  case True
  then have cp: "canPlay (state m)" and le: "tick (state m) \<le> 10"
    by (simp_all add: checkCanPlay_def split: if_splits)
  define m1 where "m1 = (if time (state m) = None
                   then m\<lparr>state := (state m)\<lparr>time := Some ts\<rparr>\<rparr> else m)"
  define m1a where "m1a = m1\<lparr>state := (state m1)\<lparr>time := Some ts\<rparr>\<rparr>"
  define m2 where "m2 = (if ts - (case time (state m1) of Some t \<Rightarrow> t | None \<Rightarrow> ts) \<ge> delay incrementer
                   then updateToTick incrementer (tick (state m1a) + ticksPerAnimation incrementer) False m1a
                   else m1)"
  have r1: "incrementerRun m1" and c1: "canPlay (state m1)" and l1: "tick (state m1) \<le> 10"
    using assms cp le by (simp_all add: m1_def incrementerRun_def)
  have r1a: "incrementerRun m1a" and c1a: "canPlay (state m1a)" and l1a: "tick (state m1a) \<le> 10"
    using r1 c1 l1 by (simp_all add: m1a_def incrementerRun_def)
  have "state (updateToTick incrementer (tick (state m1a) + 1) False m1a)
          = (state m1a)\<lparr>data := data (state m1a) + 1, tick := tick (state m1a) + 1\<rparr>"
    using r1a c1a l1a by (rule incrementer_updateToTick)
  then have "incrementerRun (updateToTick incrementer (tick (state m1a) + 1) False m1a)"
    using r1a c1a l1a by (simp add: incrementerRun_def)
  then have r2: "incrementerRun m2"
    using r1 by (simp add: m2_def)
  have "advance incrementer ts m = reschedule m2"
    using True by (simp add: advance_def Let_def m2_def m1a_def m1_def)
  moreover have "state (reschedule m2) = state m2 \<or> (\<exists>h. state (reschedule m2) = (state m2)\<lparr>timer := Some h\<rparr>)"
    by (auto simp: reschedule_def Let_def requestAnimationFrame_def cancelAnimationFrame_def
          split: option.splits)
  ultimately show ?thesis
    using r2 by (auto simp: incrementerRun_def)
qed

lemma incrementerRun_run:
  assumes "incrementerRun m" and "set ops \<subseteq> insert Play (range Frame)"
  shows "incrementerRun (run incrementer ops m)"
  using assms
proof (induction ops arbitrary: m)
  case Nil
  then show ?case by (simp add: run_Nil)
next
  case (Cons op ops)
  have "incrementerRun (apply_op incrementer m op)"
  proof (cases "op = Play")
    case True
    then show ?thesis
      using Cons.prems(1) by (simp add: play_def requestAnimationFrame_def Let_def incrementerRun_def)
  next
    case False
    then obtain ts where "op = Frame ts" using Cons.prems(2) by auto
    then show ?thesis
      using Cons.prems(1)
      by (auto simp: frame_def incrementerRun_advance split: list.splits
            intro!: incrementerRun_advance) (simp add: incrementerRun_def)+
  qed
  then show ?case using Cons by (simp add: run_Cons)
qed

lemma incrementer_never_stops_at_10:
  assumes "set ops \<subseteq> insert Play (range Frame)"
      and "canPlay (state (run incrementer ops (newModel incrementer))) = False"
  shows "tick (state (run incrementer ops (newModel incrementer))) = 11
       \<and> data (state (run incrementer ops (newModel incrementer))) = 11"
proof -
  have "incrementerRun (newModel incrementer)"
    by (simp add: incrementerRun_def newModel_def reset_def incrementerInitData_def Let_def)
  then have "incrementerRun (run incrementer ops (newModel incrementer))"
    using assms(1) by (rule incrementerRun_run)
  then show ?thesis using assms(2) by (simp add: incrementerRun_def)
qed

declare incrementer_fields [simp del]

subsection \<open>The length of the queue\<close>

lemma queueBounded_cacheStep:
  "queueBounded props st \<Longrightarrow> queueBounded props (cacheStep (dataCacheSize props) t d st)"
  by (auto simp: queueBounded_def cacheStep_def)

lemma queueBounded_reset:
  assumes "0 \<le> dataCacheSize props" and "queueBounded props st"
  shows "queueBounded props (reset props (Some st))"
  using assms by (simp add: queueBounded_def reset_def Let_def)

lemma queue_stopAndCancelTimer [simp]:
  "cachedDataKeysQueue (state (stopAndCancelTimer m)) = cachedDataKeysQueue (state m)"
  by (simp add: stopAndCancelTimer_def cancelAnimationFrame_def Let_def split: option.splits)

lemma queueBounded_stop:
  assumes "0 \<le> dataCacheSize props" and "queueBounded props (state m)"
  shows "queueBounded props (state (stop props m))"
proof -
  have "queueBounded props ((state (stopAndCancelTimer m))\<lparr>isPlaying := Some False\<rparr>)"
    using assms(2) by (simp add: queueBounded_def)
  then show ?thesis
    using assms(1) by (simp add: stop_def Let_def queueBounded_reset)
qed

lemma queueBounded_pause:
  "queueBounded props (state m) \<Longrightarrow> queueBounded props (state (pause m))"
  by (simp add: pause_def Let_def queueBounded_def)

lemma queuesBounded_stopCap:
  assumes "0 \<le> dataCacheSize props" and "queuesBounded props k"
  shows "queuesBounded props (stopCap props k)"
proof -
  have s: "queueBounded props (state (self (stopCap props k)))"
    using assms by (simp add: self_stopCap queueBounded_stop queuesBounded_def)
  have "queueBounded props (stateArg (stopCap props k))"
    using assms(2)
    by (simp add: stopCap_def Let_def stateArg_def queuesBounded_def queueBounded_def
          split: option.splits)
  then show ?thesis using s by (simp add: queuesBounded_def)
qed

lemma queuesBounded_runCapability:
  assumes "0 \<le> dataCacheSize props" and "queuesBounded props k"
  shows "queuesBounded props (runCapability props k c)"
proof (cases c)
  case (Complete r)
  have "queuesBounded props (setStateArg ((stateArg k)\<lparr>results := pushResult (resultsCacheSize props) r (results (stateArg k)),
                                              canPlay := False\<rparr>) k)"
    using assms(2)
    by (auto simp: queuesBounded_def queueBounded_def self_setStateArg stateArg_def split: option.splits)
  then show ?thesis
    using Complete assms(1) by (simp add: complete_def Let_def queuesBounded_stopCap)
next
  case Stop
  then show ?thesis using assms by (simp add: queuesBounded_stopCap)
next
  case Pause
  then show ?thesis
    using assms(2) queueBounded_pause [of props "self k"]
    by (cases "detached k") (simp_all add: queuesBounded_def pauseCap_def stateArg_def)
qed

lemma queuesBounded_cacheTick:
  assumes "queuesBounded props k"
  shows "queuesBounded props (cacheTick props t d k)"
proof (cases "detached k")
  case None
  then show ?thesis
    using assms stateArg_cacheTick [of props t d k]
    by (simp add: queuesBounded_def self_cacheTick_attached queueBounded_cacheStep stateArg_def)
next
  case (Some old)
  have "queueBounded props (stateArg (cacheTick props t d k))"
    using assms by (simp add: stateArg_cacheTick queueBounded_cacheStep queuesBounded_def)
  moreover have "queueBounded props (state (self (cacheTick props t d k)))"
    using assms Some by (simp add: self_cacheTick_detached queuesBounded_def queueBounded_def)
  ultimately show ?thesis by (simp add: queuesBounded_def)
qed

lemma queuesBounded_loopBody:
  assumes "0 \<le> dataCacheSize props" and "queuesBounded props k"
  shows "queuesBounded props (snd (loopBody props shouldStop t d k))"
  using assms(2)
proof (rule loopBody_preserves [where Q = "queuesBounded props"])
  fix k :: "('a, 'b) Activation" and c
  assume "queuesBounded props k"
  then show "queuesBounded props (runCapability props k c)"
    using assms(1) by (simp add: queuesBounded_runCapability)
next
  fix k :: "('a, 'b) Activation" and t d
  assume "queuesBounded props k"
  then show "queuesBounded props (cacheTick props t d k)" by (rule queuesBounded_cacheTick)
next
  fix k :: "('a, 'b) Activation" and c
  assume "queuesBounded props k"
  then show "queuesBounded props (k\<lparr>self := (self k)\<lparr>calls := calls (self k) @ [c]\<rparr>\<rparr>)"
    by (simp add: queuesBounded_def stateArg_def split: option.splits)
qed (auto simp: queuesBounded_def queueBounded_def self_setStateArg stateArg_def split: option.splits)

lemma queuesBounded_updateLoop:
  assumes "0 \<le> dataCacheSize props" and "queuesBounded props k"
  shows "queuesBounded props (updateLoop props target shouldStop tck dat k)"
  using assms(2)
proof (rule updateLoop_preserves [where Q = "queuesBounded props"])
  fix k :: "('a, 'b) Activation" and t d
  assume "queuesBounded props k"
  then show "queuesBounded props (snd (loopBody props shouldStop t d k))"
    using assms(1) by (simp add: queuesBounded_loopBody)
qed (auto simp: queuesBounded_def queueBounded_def self_setStateArg stateArg_def split: option.splits)

lemma queueBounded_updateToTick:
  assumes "0 \<le> dataCacheSize props" and "queueBounded props (state m)"
  shows "queueBounded props (state (updateToTick props target shouldStop m))"
proof -
  have "queuesBounded props \<lparr>self = m, detached = None\<rparr>"
    using assms(2) by (simp add: queuesBounded_def stateArg_def)
  then have "queuesBounded props (updateLoop props target shouldStop tck dat \<lparr>self = m, detached = None\<rparr>)"
    for tck dat
    using assms(1) by (simp add: queuesBounded_updateLoop)
  then show ?thesis
    using assms(2) by (simp add: updateToTick_def Let_def queuesBounded_def)
qed

lemma queue_reschedule [simp]:
  "cachedDataKeysQueue (state (reschedule m)) = cachedDataKeysQueue (state m)"
  by (simp add: reschedule_def Let_def requestAnimationFrame_def cancelAnimationFrame_def
        split: option.splits)

lemma queueBounded_advance:
  assumes "0 \<le> dataCacheSize props" and "queueBounded props (state m)"
  shows "queueBounded props (state (advance props ts m))"
proof (cases "fst (checkCanPlay (tick (state m)) (maxTime props) (state m))")
  case False
  then show ?thesis
    using assms(2) by (simp add: advance_def checkCanPlay_halts queueBounded_def)
next
  case True
  define m1 where "m1 = (if time (state m) = None
                   then m\<lparr>state := (state m)\<lparr>time := Some ts\<rparr>\<rparr> else m)"
  define m2 where "m2 = (if ts - (case time (state m1) of Some t \<Rightarrow> t | None \<Rightarrow> ts) \<ge> delay props
                   then updateToTick props (tick (state m1) + ticksPerAnimation props) False
                          (m1\<lparr>state := (state m1)\<lparr>time := Some ts\<rparr>\<rparr>)
                   else m1)"
  have z1: "queueBounded props (state m1)" using assms(2) by (simp add: m1_def queueBounded_def)
  then have "queueBounded props (state (m1\<lparr>state := (state m1)\<lparr>time := Some ts\<rparr>\<rparr>))"
    by (simp add: queueBounded_def)
  then have "queueBounded props (state m2)"
    using z1 assms(1) by (simp add: m2_def queueBounded_updateToTick)
  moreover have "advance props ts m = reschedule m2"
    using True by (simp add: advance_def Let_def m2_def m1_def)
  ultimately show ?thesis by (simp add: queueBounded_def)
qed

lemma queueBounded_op:
  assumes "0 \<le> dataCacheSize props" and "queueBounded props (state m)"
  shows "queueBounded props (state (apply_op props m op))"
proof (cases op)
  case Play
  then show ?thesis
    using assms(2) by (simp add: play_def requestAnimationFrame_def Let_def queueBounded_def)
next
  case PauseOp
  then show ?thesis using assms(2) by (simp add: queueBounded_pause)
next
  case StopOp
  then show ?thesis using assms by (simp add: queueBounded_stop)
next
  case (SetTick target)
  have "queueBounded props (state (stopAndCancelTimer m))"
    using assms(2) by (simp add: queueBounded_def)
  then show ?thesis
    using SetTick assms(1) by (simp add: setTick_def queueBounded_updateToTick)
next
  case (SetParams p)
  then show ?thesis using assms(2) by (simp add: setParams_only_params queueBounded_def)
next
  case (SetData d)
  then show ?thesis using assms(2) by (simp add: setData_def Let_def queueBounded_def)
next
  case (Frame ts)
  then show ?thesis
    using assms by (simp add: frame_def queueBounded_advance split: list.splits)
qed

lemma queue_within_dataCacheSize:
  assumes "0 \<le> dataCacheSize props"
  shows "int (length (cachedDataKeysQueue (state (run props ops (newModel props))))) \<le> dataCacheSize props"
proof -
  have step: "queueBounded props (state (run props ops m))" if "queueBounded props (state m)" for m
    using that
    by (induction ops arbitrary: m) (simp_all add: run_Nil run_Cons queueBounded_op assms)
  have "queueBounded props (state (newModel props))"
    using assms by (simp add: newModel_def reset_def queueBounded_def Let_def)
  then show ?thesis using step by (simp add: queueBounded_def)
qed

subsection \<open>C1: the incrementer, played to the end\<close>

text \<open>
  C1 says that the incrementer with \<open>maxTime = 10\<close>, played until the stop condition
  trips, ends with \<open>tick = 10\<close> and \<open>data = 10\<close>. The engine does one step more:
  \<open>checkCanPlay\<close> tests the tick it is leaving (\<open>tick > maxTime\<close>), so the callback that
  starts at tick 10 still steps. After ten callbacks the tick is 10 and the engine is
  still playing, with a callback outstanding; the eleventh steps to tick 11; the twelfth
  trips the stop condition, and nothing is outstanding after it. For any timestamps
  and any number of \<open>play()\<close> calls and callbacks, \<open>canPlay = false\<close> comes with tick 11
  and data 11 (\<open>incrementer_never_stops_at_10\<close>).
\<close>

theorem play_runs_one_tick_past_maxTime:
  "maxTime incrementer = 10
   \<and> tick (state (run incrementer (Play # map Frame [1,2,3,4,5,6,7,8,9,10]) (newModel incrementer))) = 10
   \<and> canPlay (state (run incrementer (Play # map Frame [1,2,3,4,5,6,7,8,9,10]) (newModel incrementer))) = True
   \<and> isPlaying (state (run incrementer (Play # map Frame [1,2,3,4,5,6,7,8,9,10]) (newModel incrementer))) = Some True
   \<and> pending (run incrementer (Play # map Frame [1,2,3,4,5,6,7,8,9,10]) (newModel incrementer)) = [11]
   \<and> tick (state (run incrementer (Play # map Frame [1,2,3,4,5,6,7,8,9,10,11,12]) (newModel incrementer))) = 11
   \<and> data (state (run incrementer (Play # map Frame [1,2,3,4,5,6,7,8,9,10,11,12]) (newModel incrementer))) = 11
   \<and> isPlaying (state (run incrementer (Play # map Frame [1,2,3,4,5,6,7,8,9,10,11,12]) (newModel incrementer))) = Some False
   \<and> canPlay (state (run incrementer (Play # map Frame [1,2,3,4,5,6,7,8,9,10,11,12]) (newModel incrementer))) = False
   \<and> pending (run incrementer (Play # map Frame [1,2,3,4,5,6,7,8,9,10,11,12]) (newModel incrementer)) = []"
  by code_simp

subsection \<open>C2: the key set and the queue\<close>

text \<open>
  C2 says that \<open>cachedDataKeys\<close> is always the set of the entries of
  \<open>cachedDataKeysQueue\<close>. The loop adds the new tick to the key set only in the branch
  where the queue is within \<open>dataCacheSize\<close>; in the evicting branch the tick is in the
  queue and in \<open>cachedData\<close>, and not in the key set. With \<open>dataCacheSize = 1\<close>, a fresh
  instance and \<open>setTick(2)\<close>: the queue is \<open>[2]\<close> and the key set is empty. The other
  half of C2 holds: the queue is never longer than \<open>dataCacheSize\<close>
  (\<open>queue_within_dataCacheSize\<close>).
\<close>

theorem keys_differ_from_queue_after_eviction:
  "cachedDataKeysQueue (state (run (cachingIncrementer 1) [SetTick 2] (newModel (cachingIncrementer 1)))) = [2]
   \<and> cachedDataKeys (state (run (cachingIncrementer 1) [SetTick 2] (newModel (cachingIncrementer 1)))) = {}
   \<and> cachedData (state (run (cachingIncrementer 1) [SetTick 2] (newModel (cachingIncrementer 1)))) 2 = Some 2
   \<and> cachedDataKeys (state (run (cachingIncrementer 1) [SetTick 2] (newModel (cachingIncrementer 1))))
       \<noteq> set (cachedDataKeysQueue (state (run (cachingIncrementer 1) [SetTick 2] (newModel (cachingIncrementer 1)))))"
  by code_simp

subsection \<open>C3: \<open>setParams\<close> and the reset\<close>

text \<open>
  C3 says that \<open>setParams\<close> with \<open>resetsOnChange\<close> leaves the engine in the state that
  \<open>reset\<close> builds from the merged params. \<open>setParams\<close> calls \<open>reset\<close> and drops the
  record it returns (\<open>stop\<close> assigns it to \<open>this.state\<close>), so only \<open>params\<close> changes. With
  the incrementer, whose \<open>resetsOnChange\<close> is the default \<open>true\<close>: after \<open>setTick(5)\<close> and
  \<open>setParams({speed: 2})\<close> the tick and the data are still 5, where the reset gives
  \<open>initialTick = 0\<close> and \<open>initData(params) = 0\<close>.
\<close>

theorem setParams_keeps_tick_and_data:
  "resetsOnChange incrementer
   \<and> tick (state (run incrementer [SetTick 5, SetParams [''speed'' \<mapsto> PNum 2]] (newModel incrementer))) = 5
   \<and> data (state (run incrementer [SetTick 5, SetParams [''speed'' \<mapsto> PNum 2]] (newModel incrementer))) = 5
   \<and> params (state (run incrementer [SetTick 5, SetParams [''speed'' \<mapsto> PNum 2]] (newModel incrementer))) ''speed'' = Some (PNum 2)
   \<and> tick (reset incrementer (Some (state (run incrementer [SetTick 5, SetParams [''speed'' \<mapsto> PNum 2]] (newModel incrementer))))) = 0
   \<and> data (reset incrementer (Some (state (run incrementer [SetTick 5, SetParams [''speed'' \<mapsto> PNum 2]] (newModel incrementer))))) = 0"
  by code_simp

subsection \<open>C4: seeking to a cached tick\<close>

text \<open>
  C4 says that \<open>updateToTick(target)\<close> with \<open>target\<close> in \<open>cachedDataKeys\<close> sets
  \<open>state.data\<close> to \<open>cachedData[target]\<close> and \<open>state.tick\<close> to \<open>target\<close>. The branch assigns
  the locals \<open>data\<close> and \<open>tick\<close> of \<open>updateToTick\<close> and returns; \<open>state.data\<close> and
  \<open>state.tick\<close> are written only inside the loop of the other branch. With
  \<open>dataCacheSize = 5\<close>: after \<open>setTick(3)\<close>, tick 1 is cached with data 1, and
  \<open>setTick(1)\<close> leaves the tick and the data at 3.
\<close>

theorem cached_seek_leaves_tick_and_data:
  "1 \<in> cachedDataKeys (state (run (cachingIncrementer 5) [SetTick 3] (newModel (cachingIncrementer 5))))
   \<and> cachedData (state (run (cachingIncrementer 5) [SetTick 3] (newModel (cachingIncrementer 5)))) 1 = Some 1
   \<and> tick (state (run (cachingIncrementer 5) [SetTick 3, SetTick 1] (newModel (cachingIncrementer 5)))) = 3
   \<and> data (state (run (cachingIncrementer 5) [SetTick 3, SetTick 1] (newModel (cachingIncrementer 5)))) = 3"
  by code_simp

subsection \<open>C7: \<open>canPlay\<close> stays false\<close>

text \<open>
  C7: from any state with \<open>canPlay = false\<close>, no sequence of operations without \<open>stop()\<close>
  makes \<open>canPlay\<close> true again (\<open>play\<close>, \<open>pause\<close>, \<open>setTick\<close>, \<open>setParams\<close>, \<open>setData\<close> and
  clock callbacks, in any order and number); and when the operations are only \<open>play()\<close>
  and clock callbacks, the tick is unchanged as well.
\<close>

theorem canPlay_sticky_false:
  assumes "canPlay (state m) = False" and "StopOp \<notin> set ops"
  shows "canPlay (state (run props ops m)) = False
       \<and> (set ops \<subseteq> insert Play (range Frame) \<longrightarrow> tick (state (run props ops m)) = tick (state m))"
  using assms
proof (induction ops arbitrary: m)
  case Nil
  show ?case using Nil.prems by (simp add: run_Nil)
next
  case (Cons op ops)
  have stay: "canPlay (state (apply_op props m op)) = False"
    using Cons.prems by (intro op_keeps_cannot_play) auto
  have rest: "StopOp \<notin> set ops"
    using Cons.prems by simp
  note IH = Cons.IH [OF stay rest]
  have tick_kept: "tick (state (apply_op props m op)) = tick (state m)"
    if "set (op # ops) \<subseteq> insert Play (range Frame)"
    using that Cons.prems(1) by (intro op_keeps_tick) auto
  show ?case
    using IH tick_kept by (simp add: run_Cons)
qed

theorem canPlay_sticky_false_witness:
  "canPlay (state (run incrementer (Play # map Frame [1,2,3,4,5,6,7,8,9,10,11,12]) (newModel incrementer))) = False
   \<and> StopOp \<notin> set [Play, Frame 13, Play, Frame 14 :: int Op]
   \<and> set [Play, Frame 13, Play, Frame 14 :: int Op] \<subseteq> insert Play (range Frame)
   \<and> canPlay (state (run incrementer [Play, Frame 13, Play, Frame 14]
        (run incrementer (Play # map Frame [1,2,3,4,5,6,7,8,9,10,11,12]) (newModel incrementer)))) = False
   \<and> tick (state (run incrementer [Play, Frame 13, Play, Frame 14]
        (run incrementer (Play # map Frame [1,2,3,4,5,6,7,8,9,10,11,12]) (newModel incrementer)))) = 11"
proof -
  let ?m = "run incrementer (Play # map Frame [1,2,3,4,5,6,7,8,9,10,11,12]) (newModel incrementer)"
  let ?ops = "[Play, Frame 13, Play, Frame 14 :: int Op]"
  have h1: "canPlay (state ?m) = False" by code_simp
  have h2: "StopOp \<notin> set ?ops" by simp
  have h3: "set ?ops \<subseteq> insert Play (range Frame)" by auto
  have h4: "tick (state ?m) = 11" by code_simp
  show ?thesis
    using canPlay_sticky_false [OF h1 h2, of incrementer] h1 h2 h3 h4 by simp
qed

subsection \<open>C8: seeking back to a tick that is not cached\<close>

text \<open>
  C8: when \<open>target\<close> is not in \<open>cachedDataKeys\<close> and is not greater than the resume tick
  (\<open>maxTick\<close> if it is cached, else the current tick), \<open>updateToTick(target)\<close> changes
  nothing: the state record (data, tick, caches, flags), the outstanding callbacks and
  the log of calls are the same afterwards. The embedding has no error branch here, as
  the source has no \<open>throw\<close> on this path.
\<close>

theorem updateToTick_uncached_backward_noop:
  assumes "target \<notin> cachedDataKeys (state m)"
      and "target \<le> (if maxTick (state m) \<in> cachedDataKeys (state m)
                       then maxTick (state m) else tick (state m))"
  shows "updateToTick props target shouldStop m = m"
  using assms
  by (subst updateToTick_def, subst updateLoop.simps) (simp add: Let_def)

theorem updateToTick_uncached_backward_noop_witness:
  "3 \<notin> cachedDataKeys (state (run incrementer [SetTick 5] (newModel incrementer)))
   \<and> 3 \<le> (if maxTick (state (run incrementer [SetTick 5] (newModel incrementer)))
              \<in> cachedDataKeys (state (run incrementer [SetTick 5] (newModel incrementer)))
            then maxTick (state (run incrementer [SetTick 5] (newModel incrementer)))
            else tick (state (run incrementer [SetTick 5] (newModel incrementer))))
   \<and> updateToTick incrementer 3 True (run incrementer [SetTick 5] (newModel incrementer))
       = run incrementer [SetTick 5] (newModel incrementer)"
proof -
  let ?m = "run incrementer [SetTick 5] (newModel incrementer)"
  have h1: "3 \<notin> cachedDataKeys (state ?m)" by code_simp
  have h2: "3 \<le> (if maxTick (state ?m) \<in> cachedDataKeys (state ?m)
                   then maxTick (state ?m) else tick (state ?m))" by code_simp
  show ?thesis
    using updateToTick_uncached_backward_noop [OF h1 h2, of incrementer True] h1 h2 by simp
qed

subsection \<open>C6: \<open>canPlay = false\<close> implies \<open>isPlaying = false\<close>\<close>

text \<open>
  C6 says that every public operation preserves the implication. \<open>play()\<close> sets
  \<open>isPlaying = true\<close> without looking at \<open>canPlay\<close>; the check is left to the clock
  callback. After the incrementer has run to its end (\<open>canPlay = false\<close>,
  \<open>isPlaying = false\<close>), \<open>play()\<close> gives \<open>canPlay = false\<close> with \<open>isPlaying = true\<close>.
\<close>

theorem play_breaks_flags_invariant:
  "canPlay (state (run incrementer (Play # map Frame [1,2,3,4,5,6,7,8,9,10,11,12]) (newModel incrementer))) = False
   \<and> isPlaying (state (run incrementer (Play # map Frame [1,2,3,4,5,6,7,8,9,10,11,12]) (newModel incrementer))) = Some False
   \<and> canPlay (state (apply_op incrementer
         (run incrementer (Play # map Frame [1,2,3,4,5,6,7,8,9,10,11,12]) (newModel incrementer)) Play)) = False
   \<and> isPlaying (state (apply_op incrementer
         (run incrementer (Play # map Frame [1,2,3,4,5,6,7,8,9,10,11,12]) (newModel incrementer)) Play)) = Some True"
  by code_simp

text \<open>
  C6, amended: the implication is preserved by \<open>pause\<close>, \<open>stop\<close>, \<open>setTick\<close>,
  \<open>setParams\<close>, \<open>setData\<close> and the clock callback, for every transition function.
  \<open>play()\<close> sets \<open>isPlaying = true\<close> and leaves \<open>canPlay\<close> as it is, so it breaks the
  implication exactly when \<open>canPlay\<close> is false; the clock callback that \<open>play()\<close>
  schedules establishes it again.
\<close>

theorem flags_invariant_preserved:
  assumes "flagsInvariant m" and "op \<noteq> Play"
  shows "flagsInvariant (apply_op props m op)
       \<and> isPlaying (state (play m)) = Some True
       \<and> canPlay (state (play m)) = canPlay (state m)
       \<and> flagsInvariant (frame props ts (play m))"
proof -
  have "flagsInvariant (frame props ts (play m))"
    using play_flags [of m] by (simp add: frame_def flags_advance split: list.splits)
  then show ?thesis
    using flags_op [OF assms] play_flags [of m] by simp
qed

theorem flags_invariant_preserved_witness:
  "flagsInvariant (run incrementer (Play # map Frame [1,2,3,4,5,6,7,8,9,10,11,12]) (newModel incrementer))
   \<and> SetTick 20 \<noteq> (Play :: int Op)
   \<and> flagsInvariant (apply_op incrementer
         (run incrementer (Play # map Frame [1,2,3,4,5,6,7,8,9,10,11,12]) (newModel incrementer)) (SetTick 20))
   \<and> flagsInvariant (frame incrementer 13
         (play (run incrementer (Play # map Frame [1,2,3,4,5,6,7,8,9,10,11,12]) (newModel incrementer))))"
proof -
  let ?m = "run incrementer (Play # map Frame [1,2,3,4,5,6,7,8,9,10,11,12]) (newModel incrementer)"
  have c: "canPlay (state ?m) = False" by code_simp
  have p: "isPlaying (state ?m) = Some False" by code_simp
  have h1: "flagsInvariant ?m" using c p by (simp add: flagsInvariant_def)
  have h2: "SetTick 20 \<noteq> (Play :: int Op)" by simp
  show ?thesis
    using flags_invariant_preserved [OF h1 h2, of incrementer 13] h1 by simp
qed

subsection \<open>C5: cancel before mutating\<close>

text \<open>
  C5 says that \<open>setTick\<close>, \<open>pause\<close>, \<open>stop\<close> and \<open>setParams\<close> all cancel the outstanding
  callback before they change the state, so that no stale schedule remains. Two things
  stand against it.
  \<^item> \<open>setParams\<close> never calls \<open>stopAndCancelTimer\<close>: with \<open>resetsOnChange = false\<close> it only
    merges the params. After \<open>play()\<close> the timer holds handle 1 and callback 1 is
    outstanding; after \<open>setParams({speed: 2})\<close> both are still so.
  \<^item> \<open>pause\<close>, \<open>stop\<close> and \<open>setTick\<close> cancel the handle in \<open>state.timer\<close> and no other.
    \<open>play()\<close> overwrites \<open>state.timer\<close> without cancelling the handle it held (\<open>advance\<close>
    cancels it before it requests a new one), so after \<open>play(); play()\<close> callbacks 1
    and 2 are outstanding and the timer holds 2. After \<open>pause()\<close>, \<open>stop()\<close> or
    \<open>setTick(3)\<close> callback 1 is still outstanding, and when the host runs it, it steps
    the halted model: from tick 0 to 1 after \<open>pause()\<close> and \<open>stop()\<close>, from 3 to 4 after
    \<open>setTick(3)\<close>. This stale schedule is the doing of the second \<open>play()\<close>, which leaves
    a callback that no handle refers to.
\<close>

theorem setParams_and_second_play_leave_callbacks_outstanding:
  "timer (state (run (incrementer\<lparr>resetsOnChange := False\<rparr>) [Play] (newModel (incrementer\<lparr>resetsOnChange := False\<rparr>)))) = Some 1
   \<and> pending (run (incrementer\<lparr>resetsOnChange := False\<rparr>) [Play] (newModel (incrementer\<lparr>resetsOnChange := False\<rparr>))) = [1]
   \<and> timer (state (run (incrementer\<lparr>resetsOnChange := False\<rparr>) [Play, SetParams [''speed'' \<mapsto> PNum 2]]
        (newModel (incrementer\<lparr>resetsOnChange := False\<rparr>)))) = Some 1
   \<and> pending (run (incrementer\<lparr>resetsOnChange := False\<rparr>) [Play, SetParams [''speed'' \<mapsto> PNum 2]]
        (newModel (incrementer\<lparr>resetsOnChange := False\<rparr>))) = [1]
   \<and> timer (state (run incrementer [Play, Play] (newModel incrementer))) = Some 2
   \<and> pending (run incrementer [Play, Play] (newModel incrementer)) = [1, 2]
   \<and> timer (state (run incrementer [Play, Play, PauseOp] (newModel incrementer))) = None
   \<and> pending (run incrementer [Play, Play, PauseOp] (newModel incrementer)) = [1]
   \<and> isPlaying (state (run incrementer [Play, Play, PauseOp] (newModel incrementer))) = Some False
   \<and> tick (state (run incrementer [Play, Play, PauseOp] (newModel incrementer))) = 0
   \<and> tick (state (run incrementer [Play, Play, PauseOp, Frame 5] (newModel incrementer))) = 1
   \<and> pending (run incrementer [Play, Play, StopOp] (newModel incrementer)) = [1]
   \<and> tick (state (run incrementer [Play, Play, StopOp, Frame 5] (newModel incrementer))) = 1
   \<and> pending (run incrementer [Play, Play, SetTick 3] (newModel incrementer)) = [1]
   \<and> tick (state (run incrementer [Play, Play, SetTick 3] (newModel incrementer))) = 3
   \<and> tick (state (run incrementer [Play, Play, SetTick 3, Frame 5] (newModel incrementer))) = 4"
  by code_simp

text \<open>
  C5, amended: when the timer holds a handle \<open>h\<close> (non-zero, as the handles of
  \<open>requestAnimationFrame\<close> are; \<open>if (state.timer)\<close> takes 0 for no timer), each of
  \<open>pause\<close>, \<open>stop\<close> and \<open>setTick\<close> cancels \<open>h\<close> before anything else it does:
  \<open>cancelAnimationFrame(h)\<close> is its first call, and afterwards the timer is null and
  \<open>h\<close> is not outstanding, whatever the transition function does; and when no callback
  other than \<open>h\<close> was outstanding, none is outstanding afterwards: no stale schedule
  remains. (No other callback is outstanding in any state reached from a new instance
  by operations among which \<open>play()\<close> is called only while nothing is outstanding:
  \<open>sole_schedule_from_new\<close>.) \<open>setParams\<close> with \<open>resetsOnChange = false\<close> cancels nothing: the
  timer, the outstanding callbacks and the log are unchanged.
\<close>

theorem cancel_before_mutation:
  assumes "timer (state m) = Some h" and "h \<noteq> 0"
  shows "(\<forall>op \<in> {PauseOp, StopOp, SetTick target}.
            timer (state (apply_op props m op)) = None
          \<and> h \<notin> set (pending (apply_op props m op))
          \<and> (set (pending m) \<subseteq> {h} \<longrightarrow> pending (apply_op props m op) = [])
          \<and> prefix (calls m @ [CancelFrame h]) (calls (apply_op props m op)))
       \<and> (\<not> resetsOnChange props \<longrightarrow>
            timer (state (setParams props upd m)) = Some h
          \<and> pending (setParams props upd m) = pending m
          \<and> calls (setParams props upd m) = calls m)"
proof -
  have c: "cancelled h (calls m) (pending m) (stopAndCancelTimer m)"
    using assms by (rule stopAndCancelTimer_cancels)
  have "cancelled h (calls m) (pending m) (pause m)"
    using c by (simp add: cancelled_def pause_def Let_def)
  note p = cancelled_outcome [OF this]
  have "cancelled h (calls m) (pending m) (stop props m)"
    using c by (simp add: cancelled_def stop_def reset_def Let_def)
  note s = cancelled_outcome [OF this]
  have "cancelled h (calls m) (pending m) (setTick props target m)"
    using c by (simp add: setTick_def cancelled_updateToTick)
  note t = cancelled_outcome [OF this]
  show ?thesis
    using p s t assms by (simp add: setParams_only_params)
qed

theorem cancel_before_mutation_witness:
  "timer (state (play (newModel incrementer))) = Some 1 \<and> (1::nat) \<noteq> 0
   \<and> set (pending (play (newModel incrementer))) \<subseteq> {1}
   \<and> timer (state (pause (play (newModel incrementer)))) = None
   \<and> pending (pause (play (newModel incrementer))) = []
   \<and> timer (state (stop (incrementer\<lparr>resetsOnChange := False\<rparr>) (play (newModel incrementer)))) = None
   \<and> pending (stop (incrementer\<lparr>resetsOnChange := False\<rparr>) (play (newModel incrementer))) = []
   \<and> timer (state (setTick (incrementer\<lparr>resetsOnChange := False\<rparr>) 3 (play (newModel incrementer)))) = None
   \<and> pending (setTick (incrementer\<lparr>resetsOnChange := False\<rparr>) 3 (play (newModel incrementer))) = []
   \<and> prefix (calls (play (newModel incrementer)) @ [CancelFrame 1])
        (calls (setTick (incrementer\<lparr>resetsOnChange := False\<rparr>) 3 (play (newModel incrementer))))
   \<and> \<not> resetsOnChange (incrementer\<lparr>resetsOnChange := False\<rparr>)
   \<and> timer (state (setParams (incrementer\<lparr>resetsOnChange := False\<rparr>) Map.empty (play (newModel incrementer)))) = Some 1"
proof -
  have h1: "timer (state (play (newModel incrementer))) = Some 1" by code_simp
  have h2: "(1::nat) \<noteq> 0" by simp
  have h3: "set (pending (play (newModel incrementer))) \<subseteq> {1}" by code_simp
  show ?thesis
    using cancel_before_mutation [OF h1 h2, of 3 "incrementer\<lparr>resetsOnChange := False\<rparr>" Map.empty] h1 h3
    by simp
qed

subsection \<open>C9: \<open>complete\<close>\<close>

text \<open>
  C9 says that after \<open>complete(result)\<close> the results buffer holds the result and
  \<open>canPlay\<close> is false, and that with \<open>resultsCacheSize = n\<close> the buffer holds the \<open>n\<close>
  most recent results after more than \<open>n\<close> completions. \<open>complete\<close> does this to the
  record it is given and then calls \<open>stop\<close>, which replaces \<open>this.state\<close> by the record
  \<open>reset\<close> builds: there \<open>canPlay\<close> is true, and \<open>results\<close> is empty unless
  \<open>clearsResultsCacheOnReset\<close> is false (the default is true). With
  \<open>resultsCacheSize = 2\<close> and the defaults otherwise: the record given to
  \<open>complete(7)\<close> holds \<open>[7]\<close>, and the instance ends with \<open>results = []\<close> and
  \<open>canPlay = true\<close>, also after \<open>setTick(1)\<close> with a transition function that completes,
  and after three completions. And where the results are kept
  (\<open>clearsResultsCacheOnReset = false\<close>, \<open>resultsCacheSize = 1\<close>): with a transition function
  that calls \<open>stop()\<close> at tick 1 and \<open>complete(2)\<close> at tick 2, \<open>setTick(2)\<close> leaves the
  instance with \<open>results = []\<close>, once and twice over: \<open>complete\<close> wrote to the record that
  \<open>stop()\<close> had already replaced.
\<close>

theorem complete_results_dropped_by_stop:
  "resultsCacheSize completer = 2
   \<and> results (stateArg (complete completer 7 \<lparr>self = newModel completer, detached = None\<rparr>)) = [7]
   \<and> results (state (self (complete completer 7 \<lparr>self = newModel completer, detached = None\<rparr>))) = []
   \<and> canPlay (state (self (complete completer 7 \<lparr>self = newModel completer, detached = None\<rparr>))) = True
   \<and> fst (updateData completer \<lparr>argCachedData = Map.empty, argData = 0, argTick = 1, argParams = Map.empty\<rparr>) = [Complete 1]
   \<and> results (state (run completer [SetTick 1] (newModel completer))) = []
   \<and> canPlay (state (run completer [SetTick 1] (newModel completer))) = True
   \<and> results (state (completions completer [1, 2, 3] (newModel completer))) = []
   \<and> resultsCacheSize stopThenComplete = 1
   \<and> clearsResultsCacheOnReset stopThenComplete = False
   \<and> results (state (run stopThenComplete [SetTick 2] (newModel stopThenComplete))) = []
   \<and> results (state (run stopThenComplete [SetTick 2, SetTick 2] (newModel stopThenComplete))) = []"
  by code_simp

text \<open>
  C9, amended. The record given to \<open>complete\<close> is the parameter \<open>state\<close> of the running
  call of \<open>updateToTick\<close>; it is the instance's state unless a \<open>stop()\<close> or \<open>complete()\<close>
  earlier in that call has replaced \<open>this.state\<close>. In both cases, for a record with at
  most \<open>n = resultsCacheSize\<close> results (\<open>n = 0\<close> when the size is not positive),
  \<open>complete(result)\<close> appends the result to the buffer of that record exactly when
  \<open>n > 0\<close>, dropping the oldest entry when the buffer is full, so that the buffer holds
  at most \<open>n\<close> entries, most recent last; it sets that record's \<open>canPlay\<close> to false and
  calls \<open>stop\<close> on the instance. After \<open>stop\<close> the instance's state has \<open>canPlay = true\<close>;
  its \<open>results\<close> is empty when \<open>clearsResultsCacheOnReset\<close> is true; when it is false, it
  is the buffer just written if the record was the instance's state, and it is what the
  instance held before (the result does not reach the instance) if the record had been
  replaced. So with \<open>clearsResultsCacheOnReset = false\<close> and \<open>n > 0\<close>, after more than \<open>n\<close>
  completions, each made on the instance's current state record, the instance's
  \<open>results\<close> holds exactly the \<open>n\<close> most recent results, oldest first; with
  \<open>clearsResultsCacheOnReset = true\<close> it is empty after every completion. (A call of
  \<open>updateToTick\<close> whose transition function calls \<open>complete(r)\<close> first in its first pass
  is such a completion: \<open>updateToTick_first_completion\<close>.)
\<close>

theorem complete_contract:
  assumes "n = nat (resultsCacheSize props)" and "length (results (stateArg k)) \<le> n"
  shows "results (stateArg (complete props r k))
           = (if 0 < n then (if length (results (stateArg k)) < n then results (stateArg k) @ [r]
                             else tl (results (stateArg k)) @ [r])
              else results (stateArg k))
       \<and> length (results (stateArg (complete props r k))) \<le> n
       \<and> canPlay (stateArg (complete props r k)) = False
       \<and> self (complete props r k)
           = stop props (self (setStateArg
               ((stateArg k)\<lparr>results := pushResult (resultsCacheSize props) r (results (stateArg k)),
                              canPlay := False\<rparr>) k))
       \<and> canPlay (state (self (complete props r k))) = True
       \<and> results (state (self (complete props r k)))
           = (if clearsResultsCacheOnReset props then []
              else if detached k = None then results (stateArg (complete props r k))
              else results (state (self k)))
       \<and> (\<not> clearsResultsCacheOnReset props \<and> 0 < n \<and> n < length rs
            \<and> length (results (state m)) \<le> n
            \<longrightarrow> results (state (completions props rs m)) = drop (length rs - n) rs)
       \<and> (clearsResultsCacheOnReset props \<and> rs \<noteq> []
            \<longrightarrow> results (state (completions props rs m)) = [])"
proof -
  have size: "pushResult (resultsCacheSize props) r' b = pushResult (int n) r' b" for r' :: 'b and b
    using assms(1) by (cases "0 < resultsCacheSize props") (simp_all add: pushResult_def)
  have arg: "results (stateArg (complete props r k)) = pushResult (int n) r (results (stateArg k))"
    by (simp add: stateArg_complete size)
  have cp: "canPlay (stateArg (complete props r k)) = False"
    by (simp add: stateArg_complete)
  have eng: "results (state (self (complete props r k)))
               = (if clearsResultsCacheOnReset props then []
                  else if detached k = None then results (stateArg (complete props r k))
                  else results (state (self k)))"
  proof (cases "detached k")
    case None
    then have "stateArg k = state (self k)" by (simp add: stateArg_def)
    then show ?thesis using None arg by (simp add: results_complete_any size)
  next
    case (Some old)
    then show ?thesis by (simp add: results_complete_any)
  qed
  have seq: "results (state (completions props rs m)) = drop (length rs - n) rs"
    if "\<not> clearsResultsCacheOnReset props" "0 < n" "n < length rs" "length (results (state m)) \<le> n"
  proof -
    have "results (state (completions props rs m))
            = drop (length (results (state m) @ rs) - n) (results (state m) @ rs)"
      using that by (simp add: results_completions_kept size foldl_pushResult)
    also have "\<dots> = drop (length rs - n) rs"
      using that by simp
    finally show ?thesis .
  qed
  show ?thesis
    using arg cp eng seq assms(2)
    by (auto simp: self_complete pushResult_within pushResult_bounded results_completions_cleared)
qed

theorem complete_contract_witness:
  "2 = nat (resultsCacheSize (completer\<lparr>clearsResultsCacheOnReset := False\<rparr>))
   \<and> length (results (stateArg \<lparr>self = newModel (completer\<lparr>clearsResultsCacheOnReset := False\<rparr>), detached = None\<rparr>)) \<le> 2
   \<and> \<not> clearsResultsCacheOnReset (completer\<lparr>clearsResultsCacheOnReset := False\<rparr>)
   \<and> results (state (self (complete (completer\<lparr>clearsResultsCacheOnReset := False\<rparr>) 7
         \<lparr>self = newModel (completer\<lparr>clearsResultsCacheOnReset := False\<rparr>), detached = None\<rparr>))) = [7]
   \<and> results (state (completions (completer\<lparr>clearsResultsCacheOnReset := False\<rparr>) [1, 2, 3]
         (newModel (completer\<lparr>clearsResultsCacheOnReset := False\<rparr>)))) = [2, 3]
   \<and> detached (stopCap (completer\<lparr>clearsResultsCacheOnReset := False\<rparr>)
         \<lparr>self = newModel (completer\<lparr>clearsResultsCacheOnReset := False\<rparr>), detached = None\<rparr>) \<noteq> None
   \<and> results (stateArg (complete (completer\<lparr>clearsResultsCacheOnReset := False\<rparr>) 7
         (stopCap (completer\<lparr>clearsResultsCacheOnReset := False\<rparr>)
            \<lparr>self = newModel (completer\<lparr>clearsResultsCacheOnReset := False\<rparr>), detached = None\<rparr>))) = [7]
   \<and> results (state (self (complete (completer\<lparr>clearsResultsCacheOnReset := False\<rparr>) 7
         (stopCap (completer\<lparr>clearsResultsCacheOnReset := False\<rparr>)
            \<lparr>self = newModel (completer\<lparr>clearsResultsCacheOnReset := False\<rparr>), detached = None\<rparr>)))) = []
   \<and> clearsResultsCacheOnReset completer
   \<and> results (state (completions completer [1, 2, 3] (newModel completer))) = []
   \<and> results (state (run reporter
         [SetParams [''result'' \<mapsto> PNum 1], SetTick 1,
          SetParams [''result'' \<mapsto> PNum 2], SetTick 1,
          SetParams [''result'' \<mapsto> PNum 3], SetTick 1] (newModel reporter))) = [2, 3]
   \<and> results (state (run stopThenComplete [SetTick 2, SetTick 2] (newModel stopThenComplete))) = []"
proof -
  have e: "results (state (run reporter
         [SetParams [''result'' \<mapsto> PNum 1], SetTick 1,
          SetParams [''result'' \<mapsto> PNum 2], SetTick 1,
          SetParams [''result'' \<mapsto> PNum 3], SetTick 1] (newModel reporter))) = [2, 3]"
    by code_simp
  have f: "results (state (run stopThenComplete [SetTick 2, SetTick 2] (newModel stopThenComplete))) = []"
    by code_simp
  let ?P = "completer\<lparr>clearsResultsCacheOnReset := False\<rparr>"
  let ?k = "\<lparr>self = newModel ?P, detached = None\<rparr>"
  let ?j = "stopCap ?P ?k"
  let ?c = "\<lparr>self = newModel completer, detached = None\<rparr>"
  have h1: "2 = nat (resultsCacheSize ?P)" by code_simp
  have h2: "length (results (stateArg ?k)) \<le> 2" by code_simp
  have h3: "\<not> clearsResultsCacheOnReset ?P" by simp
  have h4: "length (results (state (newModel ?P))) \<le> 2" by code_simp
  have k5: "results (stateArg ?k) = []" by code_simp
  have j2: "length (results (stateArg ?j)) \<le> 2" by code_simp
  have j3: "detached ?j \<noteq> None" by code_simp
  have j4: "results (state (self ?j)) = []" by code_simp
  have j5: "results (stateArg ?j) = []" by code_simp
  have g1: "2 = nat (resultsCacheSize completer)" by code_simp
  have g2: "length (results (stateArg ?c)) \<le> 2" by code_simp
  have g3: "clearsResultsCacheOnReset completer" by code_simp
  note a = complete_contract [OF h1 h2, of 7 "[1, 2, 3]" "newModel ?P"]
  note b = complete_contract [OF h1 j2, of 7 "[1, 2, 3]" "newModel ?P"]
  note c = complete_contract [OF g1 g2, of 7 "[1, 2, 3]" "newModel completer"]
  have a1: "results (stateArg (complete ?P 7 ?k)) = [7]"
    using a [THEN conjunct1] by (simp add: k5)
  have a6: "results (state (self (complete ?P 7 ?k))) = [7]"
    using a [THEN conjunct2, THEN conjunct2, THEN conjunct2, THEN conjunct2, THEN conjunct2, THEN conjunct1]
    by (simp add: a1)
  have a7: "results (state (completions ?P [1, 2, 3] (newModel ?P))) = [2, 3]"
    using a [THEN conjunct2, THEN conjunct2, THEN conjunct2, THEN conjunct2, THEN conjunct2,
             THEN conjunct2, THEN conjunct1] h4
    by simp
  have b1: "results (stateArg (complete ?P 7 ?j)) = [7]"
    using b [THEN conjunct1] by (simp add: j5)
  have b6: "results (state (self (complete ?P 7 ?j))) = []"
    using b [THEN conjunct2, THEN conjunct2, THEN conjunct2, THEN conjunct2, THEN conjunct2, THEN conjunct1]
          j3
    by (simp add: j4)
  have c8: "results (state (completions completer [1, 2, 3] (newModel completer))) = []"
    using c [THEN conjunct2, THEN conjunct2, THEN conjunct2, THEN conjunct2, THEN conjunct2,
             THEN conjunct2, THEN conjunct2] g3
    by simp
  show ?thesis
    using h1 h2 h3 a6 a7 j3 b1 b6 g3 c8 e f by (intro conjI)
qed

subsection \<open>C10: evicting tick 0\<close>

text \<open>
  C10 says that when tick 0 is evicted from the queue, its entries in \<open>cachedData\<close> and
  \<open>cachedDataKeys\<close> persist forever. They persist through every eviction, and not
  through a reset that clears the data cache: with \<open>initialTick = -1\<close> and
  \<open>dataCacheSize = 1\<close> (\<open>clearsDataCacheOnReset\<close> at its default, true), \<open>setTick(1)\<close>
  leaves tick 0 in the key set and in \<open>cachedData\<close> with the queue \<open>[1]\<close>, and \<open>stop()\<close>
  then leaves neither.
\<close>

theorem zero_tick_dropped_by_clearing_reset:
  "0 \<in> cachedDataKeys (state (run fromMinusOne [SetTick 1] (newModel fromMinusOne)))
   \<and> cachedData (state (run fromMinusOne [SetTick 1] (newModel fromMinusOne))) 0 = Some 1
   \<and> cachedDataKeysQueue (state (run fromMinusOne [SetTick 1] (newModel fromMinusOne))) = [1]
   \<and> clearsDataCacheOnReset fromMinusOne
   \<and> 0 \<notin> cachedDataKeys (state (run fromMinusOne [SetTick 1, StopOp] (newModel fromMinusOne)))
   \<and> cachedData (state (run fromMinusOne [SetTick 1, StopOp] (newModel fromMinusOne))) 0 = None"
  by code_simp

text \<open>
  C10, amended: when the data cache evicts (the queue is full before the push, with
  \<open>q\<close> its oldest tick), the queue loses \<open>q\<close> and gains the new tick; the entries of \<open>q\<close>
  are deleted from \<open>cachedData\<close> and \<open>cachedDataKeys\<close> only if \<open>q\<close> is not 0. If \<open>q\<close> is 0
  (reachable with \<open>initialTick = -1\<close>), the key set is unchanged and \<open>cachedData\<close> only
  gains the new tick; and once tick 0 is cached, no later pass of the cache block
  removes it. With \<open>clearsDataCacheOnReset = false\<close> it stays cached through every
  sequence of operations; a reset that clears the data cache is what drops it.
\<close>

theorem zero_tick_is_never_evicted:
  assumes "0 < dataCacheSize props"
      and "dataCacheSize props \<le> int (length (cachedDataKeysQueue (stateArg k)))"
      and "cachedDataKeysQueue (stateArg k) = q # qs"
  shows "cachedDataKeysQueue (stateArg (cacheTick props tck dat k)) = qs @ [tck]
       \<and> (q \<noteq> 0 \<longrightarrow>
            cachedDataKeys (stateArg (cacheTick props tck dat k)) = cachedDataKeys (stateArg k) - {q}
          \<and> cachedData (stateArg (cacheTick props tck dat k))
              = ((cachedData (stateArg k))(q := None))(tck \<mapsto> dat))
       \<and> (q = 0 \<longrightarrow>
            cachedDataKeys (stateArg (cacheTick props tck dat k)) = cachedDataKeys (stateArg k)
          \<and> cachedData (stateArg (cacheTick props tck dat k)) = (cachedData (stateArg k))(tck \<mapsto> dat))
       \<and> (zeroCached (stateArg k) \<longrightarrow> zeroCached (stateArg (cacheTick props tck' dat' k)))
       \<and> (\<not> clearsDataCacheOnReset props \<and> zeroCached (state m)
            \<longrightarrow> zeroCached (state (run props ops m)))"
  using cacheStep_evicts [OF assms, of tck dat]
  by (simp add: stateArg_cacheTick cacheStep_keeps_zero zeroCached_run)

theorem zero_tick_is_never_evicted_witness:
  "0 < dataCacheSize keepingFromMinusOne
   \<and> dataCacheSize keepingFromMinusOne
       \<le> int (length (cachedDataKeysQueue (stateArg
            \<lparr>self = run keepingFromMinusOne [SetTick 0] (newModel keepingFromMinusOne), detached = None\<rparr>)))
   \<and> cachedDataKeysQueue (stateArg
         \<lparr>self = run keepingFromMinusOne [SetTick 0] (newModel keepingFromMinusOne), detached = None\<rparr>) = [0]
   \<and> zeroCached (stateArg
         \<lparr>self = run keepingFromMinusOne [SetTick 0] (newModel keepingFromMinusOne), detached = None\<rparr>)
   \<and> \<not> clearsDataCacheOnReset keepingFromMinusOne
   \<and> cachedDataKeysQueue (stateArg (cacheTick keepingFromMinusOne 1 2
         \<lparr>self = run keepingFromMinusOne [SetTick 0] (newModel keepingFromMinusOne), detached = None\<rparr>)) = [1]
   \<and> cachedDataKeys (stateArg (cacheTick keepingFromMinusOne 1 2
         \<lparr>self = run keepingFromMinusOne [SetTick 0] (newModel keepingFromMinusOne), detached = None\<rparr>))
       = cachedDataKeys (stateArg
         \<lparr>self = run keepingFromMinusOne [SetTick 0] (newModel keepingFromMinusOne), detached = None\<rparr>)
   \<and> zeroCached (stateArg (cacheTick keepingFromMinusOne 1 2
         \<lparr>self = run keepingFromMinusOne [SetTick 0] (newModel keepingFromMinusOne), detached = None\<rparr>))
   \<and> zeroCached (state (run keepingFromMinusOne [SetTick 3, StopOp, SetTick 2]
         (run keepingFromMinusOne [SetTick 0] (newModel keepingFromMinusOne))))
   \<and> cachedDataKeysQueue (stateArg
         \<lparr>self = run (cachingIncrementer 1) [SetTick 1] (newModel (cachingIncrementer 1)), detached = None\<rparr>) = [1]
   \<and> cachedDataKeys (stateArg (cacheTick (cachingIncrementer 1) 2 2
         \<lparr>self = run (cachingIncrementer 1) [SetTick 1] (newModel (cachingIncrementer 1)), detached = None\<rparr>))
       = cachedDataKeys (stateArg
         \<lparr>self = run (cachingIncrementer 1) [SetTick 1] (newModel (cachingIncrementer 1)), detached = None\<rparr>) - {1}"
proof -
  let ?P = "keepingFromMinusOne"
  let ?k = "\<lparr>self = run ?P [SetTick 0] (newModel ?P), detached = None\<rparr>"
  let ?Q = "cachingIncrementer 1"
  let ?j = "\<lparr>self = run ?Q [SetTick 1] (newModel ?Q), detached = None\<rparr>"
  have h1: "0 < dataCacheSize ?P" by code_simp
  have h2: "dataCacheSize ?P \<le> int (length (cachedDataKeysQueue (stateArg ?k)))" by code_simp
  have h3: "cachedDataKeysQueue (stateArg ?k) = 0 # []" by code_simp
  have h4: "zeroCached (stateArg ?k)" by code_simp
  have h5: "\<not> clearsDataCacheOnReset ?P" by code_simp
  have h6: "zeroCached (state (run ?P [SetTick 0] (newModel ?P)))" by code_simp
  have g1: "0 < dataCacheSize ?Q" by code_simp
  have g2: "dataCacheSize ?Q \<le> int (length (cachedDataKeysQueue (stateArg ?j)))" by code_simp
  have g3: "cachedDataKeysQueue (stateArg ?j) = 1 # []" by code_simp
  show ?thesis
    using zero_tick_is_never_evicted [OF h1 h2 h3, of 1 2 1 2 "run ?P [SetTick 0] (newModel ?P)"
            "[SetTick 3, StopOp, SetTick 2]"]
          zero_tick_is_never_evicted [OF g1 g2 g3, of 2 2 2 2]
          h1 h2 h3 h4 h5 h6 g3
    by simp
qed

end
